theory Spec2Isabelle
  imports Complex_Main
begin

section \<open>Price direction predictor: the training script\<close>

text \<open>
  A shallow embedding of \<^verbatim>\<open>src/models/price_predictor/train.py\<close>: the two-layer
  classifier \<^verbatim>\<open>PricePredictor\<close>, the synthetic data generator and the training loop.

  Conventions of the embedding.
  \<^item> A numpy \<^verbatim>\<open>float64\<close> is a \<open>real\<close>: the rounding of results is abstracted away.
    What the machine format does at the ends of its range is written out where the
    source meets it: the division by zero in the generator and in \<^verbatim>\<open>backward\<close>, the
    mean of an empty array, and the underflow of the exponential in \<^verbatim>\<open>softmax\<close>.
  \<^item> A two-dimensional array is the list of its rows. An array with no rows does not
    record its column count; the source meets one only as the empty training batch.
  \<^item> Operands of the element-wise operations must have equal shapes; numpy's
    broadcasting of length-one axes is not part of the model and is reported as
    \<open>ValueError\<close>.
  \<^item> The ambient random generator is an explicit argument: each draw of the source is
    a value read from it.
  \<^item> An exception of the source is a value \<open>Inl e\<close>. \<open>NotFinite\<close> is not an
    exception: it marks a result that numpy computes as \<^verbatim>\<open>nan\<close> or \<^verbatim>\<open>inf\<close> with a
    warning (a division by zero, the mean of an empty array), which \<open>real\<close> cannot
    hold. The source goes on computing with such a value; the model ends there, so
    \<open>Inl NotFinite\<close> says that the run has left real arithmetic, and nothing about
    what follows.
  \<^item> The sample count, the number of epochs and the layer sizes are natural numbers:
    the entry point declares them positive integers.
\<close>

subsection \<open>Arrays and failures\<close>

type_synonym vec = "real list"
type_synonym matrix = "real list list"

datatype np_error =
  ValueError | IndexError | AxisError | AttributeError | ZeroDivisionError | NotFinite

definition bnd :: "np_error + 'a \<Rightarrow> ('a \<Rightarrow> np_error + 'b) \<Rightarrow> np_error + 'b" where
  "bnd r f = (case r of Inl e \<Rightarrow> Inl e | Inr v \<Rightarrow> f v)"

fun map_e :: "('a \<Rightarrow> np_error + 'b) \<Rightarrow> 'a list \<Rightarrow> np_error + 'b list" where
  "map_e f [] = Inr []"
| "map_e f (x # xs) = bnd (f x) (\<lambda>v. bnd (map_e f xs) (\<lambda>vs. Inr (v # vs)))"

text \<open>A value that is only printed may be \<^verbatim>\<open>nan\<close>; an exception still aborts.\<close>

definition metric :: "np_error + 'a \<Rightarrow> np_error + 'a option" where
  "metric r = (case r of Inl NotFinite \<Rightarrow> Inr None | Inl e \<Rightarrow> Inl e | Inr v \<Rightarrow> Inr (Some v))"

definition ncols :: "'a list list \<Rightarrow> nat" where
  "ncols A = (case A of [] \<Rightarrow> 0 | r # _ \<Rightarrow> length r)"

definition has_shape :: "'a list list \<Rightarrow> nat \<Rightarrow> nat \<Rightarrow> bool" where
  "has_shape A m n = (length A = m \<and> (\<forall>r \<in> set A. length r = n))"

definition mk_matrix :: "nat \<Rightarrow> nat \<Rightarrow> (nat \<Rightarrow> nat \<Rightarrow> real) \<Rightarrow> matrix" where
  "mk_matrix m n f = map (\<lambda>i. map (\<lambda>j. f i j) [0..<n]) [0..<m]"

definition mk_vec :: "nat \<Rightarrow> (nat \<Rightarrow> real) \<Rightarrow> vec" where
  "mk_vec n f = map f [0..<n]"

text \<open>\<^verbatim>\<open>A.T\<close>\<close>

definition transpose_np :: "matrix \<Rightarrow> matrix" where
  "transpose_np A = map (\<lambda>j. map (\<lambda>r. r ! j) A) [0..<ncols A]"

definition vdot :: "vec \<Rightarrow> vec \<Rightarrow> real" where
  "vdot u v = sum_list (map2 (*) u v)"

text \<open>\<^verbatim>\<open>np.dot(A, B)\<close> of two-dimensional arrays\<close>

definition dot :: "matrix \<Rightarrow> matrix \<Rightarrow> np_error + matrix" where
  "dot A B = (if \<forall>r \<in> set A. length r = length B
     then Inr (map (\<lambda>r. map (vdot r) (transpose_np B)) A)
     else Inl ValueError)"

definition vec_op :: "(real \<Rightarrow> real \<Rightarrow> real) \<Rightarrow> vec \<Rightarrow> vec \<Rightarrow> np_error + vec" where
  "vec_op f u v = (if length u = length v then Inr (map2 f u v) else Inl ValueError)"

definition mat_op :: "(real \<Rightarrow> real \<Rightarrow> real) \<Rightarrow> matrix \<Rightarrow> matrix \<Rightarrow> np_error + matrix" where
  "mat_op f A B = (if length A = length B
     then map_e (\<lambda>(r, s). vec_op f r s) (zip A B)
     else Inl ValueError)"

text \<open>\<^verbatim>\<open>Z + b\<close> of a matrix and a vector: \<open>b\<close> is added to every row\<close>

definition add_bias :: "matrix \<Rightarrow> vec \<Rightarrow> np_error + matrix" where
  "add_bias Z b = map_e (\<lambda>r. vec_op (+) r b) Z"

text \<open>\<^verbatim>\<open>np.sum(A, axis=0)\<close>\<close>

definition sum_axis0 :: "matrix \<Rightarrow> vec" where
  "sum_axis0 A = map sum_list (transpose_np A)"

text \<open>
  \<^verbatim>\<open>A / m\<close> for the batch size \<open>m\<close>: with \<open>m = 0\<close> every entry of the array is
  \<^verbatim>\<open>nan\<close> or \<^verbatim>\<open>inf\<close>. The arrays that the source divides are the gradients of the
  parameters, which have entries whatever the batch is.
\<close>

definition mat_div :: "matrix \<Rightarrow> nat \<Rightarrow> np_error + matrix" where
  "mat_div A m = (if m = 0 then Inl NotFinite else Inr (map (map (\<lambda>v. v / real m)) A))"

definition vec_div :: "vec \<Rightarrow> nat \<Rightarrow> np_error + vec" where
  "vec_div u m = (if m = 0 then Inl NotFinite else Inr (map (\<lambda>v. v / real m) u))"

definition scale_mat :: "real \<Rightarrow> matrix \<Rightarrow> matrix" where
  "scale_mat c A = map (map (\<lambda>v. c * v)) A"

definition scale_vec :: "real \<Rightarrow> vec \<Rightarrow> vec" where
  "scale_vec c u = map (\<lambda>v. c * v) u"

text \<open>\<^verbatim>\<open>np.max(r)\<close> and \<^verbatim>\<open>np.argmax(r)\<close> of one row: both raise on an empty row\<close>

definition np_max :: "vec \<Rightarrow> np_error + real" where
  "np_max r = (case r of [] \<Rightarrow> Inl ValueError | v # vs \<Rightarrow> Inr (fold max vs v))"

definition argmax :: "vec \<Rightarrow> np_error + nat" where
  "argmax r = bnd (np_max r) (\<lambda>mx. Inr (length (takeWhile (\<lambda>v. v \<noteq> mx) r)))"

text \<open>\<^verbatim>\<open>np.mean(u)\<close> of a vector: \<^verbatim>\<open>nan\<close> on an empty one\<close>

definition np_mean :: "vec \<Rightarrow> np_error + real" where
  "np_mean u = (if u = [] then Inl NotFinite else Inr (sum_list u / real (length u)))"

text \<open>\<^verbatim>\<open>np.clip(v, lo, hi)\<close>\<close>

definition clip :: "real \<Rightarrow> real \<Rightarrow> real \<Rightarrow> real" where
  "clip v lo hi = min (max v lo) hi"

text \<open>\<^verbatim>\<open>X[indices]\<close> with a list of row indices\<close>

definition take_rows :: "'a list \<Rightarrow> nat list \<Rightarrow> np_error + 'a list" where
  "take_rows X idx = map_e (\<lambda>i. if i < length X then Inr (X ! i) else Inl IndexError) idx"

subsection \<open>The classifier\<close>

text \<open>
  The object state of \<^verbatim>\<open>PricePredictor\<close>. The four cached activations do not exist
  before the first call of \<^verbatim>\<open>forward\<close>. The type \<open>'a\<close> is that of the array entries: the
  methods that compute with them are defined on \<open>real\<close>, and \<^verbatim>\<open>export_weights\<close>, which
  only copies them, on every type of entries, so that it also covers a state whose
  entries are \<^verbatim>\<open>nan\<close>.
\<close>

record 'a price_predictor =
  input_size :: nat
  hidden_size :: nat
  output_size :: nat
  W1 :: "'a list list"
  b1 :: "'a list"
  W2 :: "'a list list"
  b2 :: "'a list"
  z1 :: "'a list list option"
  a1 :: "'a list list option"
  z2 :: "'a list list option"
  a2 :: "'a list list option"

text \<open>
  \<^verbatim>\<open>__init__\<close>: \<open>rW1\<close> and \<open>rW2\<close> are the entries drawn by the two calls of
  \<^verbatim>\<open>np.random.randn\<close>. \<^verbatim>\<open>2.0 / input_size\<close> is a division of Python numbers and raises
  on zero.
\<close>

definition init_predictor ::
  "nat \<Rightarrow> nat \<Rightarrow> nat \<Rightarrow> (nat \<Rightarrow> nat \<Rightarrow> real) \<Rightarrow> (nat \<Rightarrow> nat \<Rightarrow> real) \<Rightarrow> np_error + real price_predictor" where
  "init_predictor n_in n_hid n_out rW1 rW2 =
     (if n_in = 0 then Inl ZeroDivisionError
      else if n_hid = 0 then Inl ZeroDivisionError
      else Inr \<lparr>input_size = n_in, hidden_size = n_hid, output_size = n_out,
        W1 = mk_matrix n_in n_hid (\<lambda>i j. rW1 i j * sqrt (2 / real n_in)),
        b1 = replicate n_hid 0,
        W2 = mk_matrix n_hid n_out (\<lambda>i j. rW2 i j * sqrt (2 / real n_hid)),
        b2 = replicate n_out 0,
        z1 = None, a1 = None, z2 = None, a2 = None\<rparr>)"

definition relu :: "matrix \<Rightarrow> matrix" where
  "relu x = map (map (\<lambda>v. max 0 v)) x"

definition relu_derivative :: "matrix \<Rightarrow> matrix" where
  "relu_derivative x = map (map (\<lambda>v. if v > 0 then 1 else 0)) x"

text \<open>
  \<^verbatim>\<open>np.exp\<close> as \<^verbatim>\<open>softmax\<close> calls it, on the differences to the maximum of a row, which
  are never positive, so that no result overflows. The smallest positive \<^verbatim>\<open>float64\<close>
  is \<open>2 ^ - 1074\<close>; an exponential of at most half of it, that is, of an argument of
  at most \<open>- 1075 * ln 2\<close> (about \<open>-745.13\<close>), is rounded to 0. This underflow is part
  of the model; the rounding of the results that are not 0 is not.
\<close>

definition np_exp :: "real \<Rightarrow> real" where
  "np_exp x = (if x \<le> - 1075 * ln 2 then 0 else exp x)"

text \<open>
  \<^verbatim>\<open>softmax\<close>, row by row: \<^verbatim>\<open>np.max\<close> and \<^verbatim>\<open>np.sum\<close> run along the last axis and
  keep it.
\<close>

definition softmax_row :: "vec \<Rightarrow> np_error + vec" where
  "softmax_row r = bnd (np_max r) (\<lambda>mx.
     let exp_x = map (\<lambda>v. np_exp (v - mx)) r
     in Inr (map (\<lambda>e. e / sum_list exp_x) exp_x))"

definition softmax :: "matrix \<Rightarrow> np_error + matrix" where
  "softmax x = map_e softmax_row x"

definition forward :: "real price_predictor \<Rightarrow> matrix \<Rightarrow> np_error + (real price_predictor \<times> matrix)" where
  "forward self x =
     bnd (dot x (W1 self)) (\<lambda>xw.
     bnd (add_bias xw (b1 self)) (\<lambda>z1v.
     let a1v = relu z1v in
     bnd (dot a1v (W2 self)) (\<lambda>aw.
     bnd (add_bias aw (b2 self)) (\<lambda>z2v.
     bnd (softmax z2v) (\<lambda>a2v.
     Inr (self\<lparr>z1 := Some z1v, a1 := Some a1v, z2 := Some z2v, a2 := Some a2v\<rparr>, a2v))))))"

text \<open>Reading a cached activation that no forward pass has set raises.\<close>

definition cached :: "'a option \<Rightarrow> np_error + 'a" where
  "cached c = (case c of None \<Rightarrow> Inl AttributeError | Some v \<Rightarrow> Inr v)"

text \<open>
  \<^verbatim>\<open>backward\<close>: \<open>m\<close> is \<^verbatim>\<open>x.shape[0]\<close>; the gradients are computed from the parameters
  as they are before the update, and the four parameters are then updated in place.
\<close>

definition backward :: "real price_predictor \<Rightarrow> matrix \<Rightarrow> matrix \<Rightarrow> real \<Rightarrow> np_error + real price_predictor" where
  "backward self x y learning_rate =
     (let m = length x in
     bnd (cached (a2 self)) (\<lambda>a2v.
     bnd (mat_op (-) a2v y) (\<lambda>dz2.
     bnd (cached (a1 self)) (\<lambda>a1v.
     bnd (dot (transpose_np a1v) dz2) (\<lambda>s2.
     bnd (mat_div s2 m) (\<lambda>dW2.
     bnd (vec_div (sum_axis0 dz2) m) (\<lambda>db2.
     bnd (dot dz2 (transpose_np (W2 self))) (\<lambda>da1.
     bnd (cached (z1 self)) (\<lambda>z1v.
     bnd (mat_op (*) da1 (relu_derivative z1v)) (\<lambda>dz1.
     bnd (dot (transpose_np x) dz1) (\<lambda>s1.
     bnd (mat_div s1 m) (\<lambda>dW1.
     bnd (vec_div (sum_axis0 dz1) m) (\<lambda>db1.
     bnd (mat_op (-) (W2 self) (scale_mat learning_rate dW2)) (\<lambda>W2v.
     bnd (vec_op (-) (b2 self) (scale_vec learning_rate db2)) (\<lambda>b2v.
     bnd (mat_op (-) (W1 self) (scale_mat learning_rate dW1)) (\<lambda>W1v.
     bnd (vec_op (-) (b1 self) (scale_vec learning_rate db1)) (\<lambda>b1v.
     Inr (self\<lparr>W2 := W2v, b2 := b2v, W1 := W1v, b1 := b1v\<rparr>))))))))))))))))))"

definition compute_loss :: "matrix \<Rightarrow> matrix \<Rightarrow> np_error + real" where
  "compute_loss y_pred y_true =
     (let epsilon = 1 / 10 ^ 15;
          y_pred = map (map (\<lambda>v. clip v epsilon (1 - epsilon))) y_pred
      in bnd (mat_op (*) y_true (map (map ln) y_pred)) (\<lambda>t.
         bnd (np_mean (map sum_list t)) (\<lambda>mu. Inr (- mu))))"

text \<open>
  \<^verbatim>\<open>accuracy\<close>: the two vectors of class indices have the same length whenever both
  arguments come from the same batch; arrays of different lengths cannot be compared
  entry by entry.
\<close>

definition accuracy :: "matrix \<Rightarrow> matrix \<Rightarrow> np_error + real" where
  "accuracy y_pred y_true =
     bnd (map_e argmax y_pred) (\<lambda>pred_labels.
     bnd (map_e argmax y_true) (\<lambda>true_labels.
     if length pred_labels \<noteq> length true_labels then Inl ValueError
     else np_mean (map2 (\<lambda>p t. if p = t then 1 else 0) pred_labels true_labels)))"

subsection \<open>The exported artifact\<close>

text \<open>
  The value passed to \<^verbatim>\<open>json.dump\<close>: a dictionary keeps its keys in order, and a number
  of an array is the entry it was copied from, of type \<open>'a\<close>.
\<close>

datatype 'a json =
  JString string | JInt int | JFloat 'a | JArray "'a json list" | JObject "(string \<times> 'a json) list"

text \<open>\<^verbatim>\<open>ndarray.tolist()\<close> of a vector and of a matrix\<close>

definition tolist1 :: "'a list \<Rightarrow> 'a json" where
  "tolist1 u = JArray (map JFloat u)"

definition tolist2 :: "'a list list \<Rightarrow> 'a json" where
  "tolist2 A = JArray (map tolist1 A)"

definition label_names :: "string list" where
  "label_names = [''UP'', ''DOWN'', ''SIDEWAYS'']"

definition weights_document :: "'a price_predictor \<Rightarrow> 'a json" where
  "weights_document self = JObject
     [(''model'', JString ''price-predictor''),
      (''version'', JString ''1.0.0''),
      (''architecture'', JObject
         [(''input_size'', JInt (int (input_size self))),
          (''hidden_size'', JInt (int (hidden_size self))),
          (''output_size'', JInt (int (output_size self))),
          (''activation'', JString ''relu''),
          (''output_activation'', JString ''softmax'')]),
      (''weights'', JObject
         [(''W1'', tolist2 (W1 self)),
          (''b1'', tolist1 (b1 self)),
          (''W2'', tolist2 (W2 self)),
          (''b2'', tolist1 (b2 self))]),
      (''labels'', JArray (map JString label_names))]"

text \<open>
  \<^verbatim>\<open>export_weights\<close>: the file at \<open>filepath\<close> is replaced by the serialized document.
  \<open>dumps\<close> is \<^verbatim>\<open>json.dump(\<cdot>, indent=2)\<close> of the standard library, a function of the
  document; the files are a map from paths to contents.
\<close>

definition export_weights ::
  "('a json \<Rightarrow> string) \<Rightarrow> 'a price_predictor \<Rightarrow> string \<Rightarrow> (string \<rightharpoonup> string) \<Rightarrow> (string \<rightharpoonup> string)" where
  "export_weights dumps self filepath files = files(filepath \<mapsto> dumps (weights_document self))"

subsection \<open>The synthetic data generator\<close>

text \<open>
  The prices after the first are \<^verbatim>\<open>np.float64\<close> scalars, whose division by zero gives
  \<^verbatim>\<open>inf\<close> or \<^verbatim>\<open>nan\<close> with a warning. The generator's values are therefore reals
  extended by the three special values. Draws within the ranges of the samplers keep
  the prices between \<open>-28\<close> and 228, far from the overflow of the machine format.
\<close>

datatype npfloat = Fin real | PInf | NInf | NaN

text \<open>\<^verbatim>\<open>a / b\<close> of two finite values (a zero price is \<^verbatim>\<open>+0.0\<close>)\<close>

definition fl_div :: "real \<Rightarrow> real \<Rightarrow> npfloat" where
  "fl_div a b = (if b \<noteq> 0 then Fin (a / b) else if a > 0 then PInf else if a < 0 then NInf else NaN)"

text \<open>\<^verbatim>\<open>x * 100\<close> and \<^verbatim>\<open>x / 5.0\<close>\<close>

fun fl_times_100 :: "npfloat \<Rightarrow> npfloat" where
  "fl_times_100 (Fin v) = Fin (v * 100)"
| "fl_times_100 x = x"

fun fl_over_5 :: "npfloat \<Rightarrow> npfloat" where
  "fl_over_5 (Fin v) = Fin (v / 5)"
| "fl_over_5 x = x"

text \<open>The comparison \<^verbatim>\<open>a < b\<close>: false whenever an operand is \<^verbatim>\<open>nan\<close>\<close>

fun fl_less :: "npfloat \<Rightarrow> npfloat \<Rightarrow> bool" where
  "fl_less (Fin a) (Fin b) = (a < b)"
| "fl_less (Fin a) PInf = True"
| "fl_less NInf (Fin b) = True"
| "fl_less NInf PInf = True"
| "fl_less a b = False"

text \<open>
  Python's built-in \<^verbatim>\<open>max(a, b)\<close> and \<^verbatim>\<open>min(a, b)\<close> keep the first argument unless the
  second is strictly greater, respectively smaller.
\<close>

definition py_max :: "npfloat \<Rightarrow> npfloat \<Rightarrow> npfloat" where
  "py_max a b = (if fl_less a b then b else a)"

definition py_min :: "npfloat \<Rightarrow> npfloat \<Rightarrow> npfloat" where
  "py_min a b = (if fl_less b a then b else a)"

text \<open>
  The draws of one sample: \<^verbatim>\<open>np.random.choice([-1, 0, 1])\<close>, and for each of the four
  steps \<^verbatim>\<open>np.random.uniform(0.5, 2.0)\<close> and \<^verbatim>\<open>np.random.normal(0, 1.5)\<close>.
\<close>

record sample_draws =
  trend :: int
  unif :: "nat \<Rightarrow> real"
  gauss :: "nat \<Rightarrow> real"

text \<open>
  The values that the three samplers return. \<^verbatim>\<open>np.random.choice([-1, 0, 1])\<close> is one of
  the three listed numbers; \<^verbatim>\<open>np.random.uniform(0.5, 2.0)\<close> lies between its two bounds;
  \<^verbatim>\<open>np.random.normal(0, 1.5)\<close> is 1.5 times a standard normal variate that the sampler
  computes from uniform numbers of 53 bits, which keeps it within twenty standard
  deviations of the mean, that is, within 30 of zero. The record above admits any
  numbers; the statements about the outcomes of the draws are about those in range.
\<close>

definition draws_in_range :: "sample_draws \<Rightarrow> bool" where
  "draws_in_range d =
     (trend d \<in> {- 1, 0, 1}
      \<and> (\<forall>i < 4. 1 / 2 \<le> unif d i \<and> unif d i \<le> 2 \<and> \<bar>gauss d i\<bar> \<le> 30))"

text \<open>The list \<^verbatim>\<open>prices\<close> after \<open>k\<close> rounds of the inner loop\<close>

fun build_prices :: "sample_draws \<Rightarrow> nat \<Rightarrow> real list" where
  "build_prices d 0 = [100]"
| "build_prices d (Suc i) =
     (let prices = build_prices d i;
          change = real_of_int (trend d) * unif d i + gauss d i
      in prices @ [last prices + change])"

definition percent_deltas :: "real list \<Rightarrow> npfloat list" where
  "percent_deltas prices =
     map (\<lambda>i. fl_times_100 (fl_div (prices ! (i + 1) - prices ! i) (prices ! i))) [0..<4]"

definition normalize_delta :: "npfloat \<Rightarrow> npfloat" where
  "normalize_delta d = py_min (py_max (fl_over_5 d) (Fin (- 1))) (Fin 1)"

text \<open>\<^verbatim>\<open>prices[0]\<close> is the integer 100, so this division is one of finite numbers.\<close>

definition total_change_of :: "real list \<Rightarrow> real" where
  "total_change_of prices = (last prices - prices ! 0) / (prices ! 0) * 100"

definition label_of_change :: "real \<Rightarrow> int list" where
  "label_of_change total_change =
     (if total_change > 1.5 then [1, 0, 0]
      else if total_change < - 1.5 then [0, 1, 0]
      else [0, 0, 1])"

definition generate_sample :: "sample_draws \<Rightarrow> npfloat list \<times> int list" where
  "generate_sample d =
     (let prices = build_prices d 4;
          deltas = percent_deltas prices;
          deltas = map normalize_delta deltas;
          total_change = total_change_of prices;
          label = label_of_change total_change
      in (deltas, label))"

text \<open>The outer loop after \<open>k\<close> rounds; \<open>rng k\<close> holds the draws of round \<open>k\<close>.\<close>

fun generate_training_data :: "nat \<Rightarrow> (nat \<Rightarrow> sample_draws) \<Rightarrow> npfloat list list \<times> int list list" where
  "generate_training_data 0 rng = ([], [])"
| "generate_training_data (Suc k) rng =
     (let (X, y) = generate_training_data k rng;
          (deltas, label) = generate_sample (rng k)
      in (X @ [deltas], y @ [label]))"

text \<open>
  The arrays built by \<^verbatim>\<open>np.array\<close> hold \<^verbatim>\<open>nan\<close> where a feature is \<^verbatim>\<open>nan\<close>; every
  value computed from such an entry is \<^verbatim>\<open>nan\<close> as well, so the real-valued model of
  the classifier stops there.
\<close>

definition finite_value :: "npfloat \<Rightarrow> np_error + real" where
  "finite_value x = (case x of Fin v \<Rightarrow> Inr v | _ \<Rightarrow> Inl NotFinite)"

definition finite_matrix :: "npfloat list list \<Rightarrow> np_error + matrix" where
  "finite_matrix X = map_e (map_e finite_value) X"

subsection \<open>The training entry point\<close>

text \<open>
  \<^verbatim>\<open>int(0.8 * len(X))\<close>. The \<^verbatim>\<open>float64\<close> nearest to 0.8 exceeds it by less than
  \<open>2 ^ - 54\<close>, and the rounded product has the same integer part as the exact one for
  every array length that fits in memory.
\<close>

definition split_index :: "nat \<Rightarrow> nat" where
  "split_index n = nat \<lfloor>0.8 * real n\<rfloor>"

definition split_data :: "'a list \<Rightarrow> 'b list \<Rightarrow> 'a list \<times> 'a list \<times> 'b list \<times> 'b list" where
  "split_data X y =
     (let split = split_index (length X);
          X_train = take split X; X_test = drop split X;
          y_train = take split y; y_test = drop split y
      in (X_train, X_test, y_train, y_test))"

text \<open>
  The draws of one run of \<^verbatim>\<open>train\<close>: those of the generator, the two weight matrices,
  \<^verbatim>\<open>np.random.permutation(len(X_train))\<close> of each epoch, and \<^verbatim>\<open>np.random.randint\<close> of
  each sample prediction.
\<close>

record train_rng =
  sample_rng :: "nat \<Rightarrow> sample_draws"
  randn_W1 :: "nat \<Rightarrow> nat \<Rightarrow> real"
  randn_W2 :: "nat \<Rightarrow> nat \<Rightarrow> real"
  permutation :: "nat \<Rightarrow> nat list"
  randint :: "nat \<Rightarrow> nat"

text \<open>The body of the loop over \<open>epoch\<close>; \<open>loss\<close> and the accuracies are only printed.\<close>

definition train_epoch ::
  "(nat \<Rightarrow> nat list) \<Rightarrow> matrix \<Rightarrow> matrix \<Rightarrow> matrix \<Rightarrow> matrix \<Rightarrow> real \<Rightarrow> nat \<Rightarrow> real price_predictor
     \<Rightarrow> np_error + real price_predictor" where
  "train_epoch perm X_train y_train X_test y_test learning_rate epoch model =
     (let indices = perm epoch in
      bnd (take_rows X_train indices) (\<lambda>X_shuffled.
      bnd (take_rows y_train indices) (\<lambda>y_shuffled.
      bnd (forward model X_shuffled) (\<lambda>(model, y_pred).
      bnd (metric (compute_loss y_pred y_shuffled)) (\<lambda>loss.
      bnd (metric (accuracy y_pred y_shuffled)) (\<lambda>acc.
      bnd (backward model X_shuffled y_shuffled learning_rate) (\<lambda>model.
      if (epoch + 1) mod 10 = 0
      then bnd (forward model X_test) (\<lambda>(model, test_pred).
           bnd (metric (accuracy test_pred y_test)) (\<lambda>test_acc. Inr model))
      else Inr model)))))))"

text \<open>The model after the first \<open>k\<close> epochs\<close>

fun train_epochs ::
  "(nat \<Rightarrow> nat list) \<Rightarrow> matrix \<Rightarrow> matrix \<Rightarrow> matrix \<Rightarrow> matrix \<Rightarrow> real \<Rightarrow> nat \<Rightarrow> real price_predictor
     \<Rightarrow> np_error + real price_predictor" where
  "train_epochs perm X_train y_train X_test y_test learning_rate 0 model = Inr model"
| "train_epochs perm X_train y_train X_test y_test learning_rate (Suc k) model =
     bnd (train_epochs perm X_train y_train X_test y_test learning_rate k model)
       (train_epoch perm X_train y_train X_test y_test learning_rate k)"

text \<open>
  The same loop with the evaluation pass of every tenth epoch left out. It is not part
  of the source; it is what the loop is compared with.
\<close>

definition train_epoch_without_evaluation ::
  "(nat \<Rightarrow> nat list) \<Rightarrow> matrix \<Rightarrow> matrix \<Rightarrow> real \<Rightarrow> nat \<Rightarrow> real price_predictor
     \<Rightarrow> np_error + real price_predictor" where
  "train_epoch_without_evaluation perm X_train y_train learning_rate epoch model =
     (let indices = perm epoch in
      bnd (take_rows X_train indices) (\<lambda>X_shuffled.
      bnd (take_rows y_train indices) (\<lambda>y_shuffled.
      bnd (forward model X_shuffled) (\<lambda>(model, y_pred).
      bnd (metric (compute_loss y_pred y_shuffled)) (\<lambda>loss.
      bnd (metric (accuracy y_pred y_shuffled)) (\<lambda>acc.
      backward model X_shuffled y_shuffled learning_rate))))))"

fun train_epochs_without_evaluation ::
  "(nat \<Rightarrow> nat list) \<Rightarrow> matrix \<Rightarrow> matrix \<Rightarrow> real \<Rightarrow> nat \<Rightarrow> real price_predictor
     \<Rightarrow> np_error + real price_predictor" where
  "train_epochs_without_evaluation perm X_train y_train learning_rate 0 model = Inr model"
| "train_epochs_without_evaluation perm X_train y_train learning_rate (Suc k) model =
     bnd (train_epochs_without_evaluation perm X_train y_train learning_rate k model)
       (train_epoch_without_evaluation perm X_train y_train learning_rate k)"

text \<open>One round of the loop that prints sample predictions, for the drawn index\<close>

definition sample_prediction ::
  "matrix \<Rightarrow> matrix \<Rightarrow> nat \<Rightarrow> real price_predictor \<Rightarrow> np_error + real price_predictor" where
  "sample_prediction X_test y_test idx model =
     (if length X_test = 0 then Inl ValueError
      else bnd (forward model (take 1 (drop idx X_test))) (\<lambda>(model, preds).
        case preds of [] \<Rightarrow> Inl IndexError
        | pred # _ \<Rightarrow>
            if idx < length y_test
            then bnd (argmax (y_test ! idx)) (\<lambda>t.
                 if t < length label_names
                 then bnd (argmax pred) (\<lambda>p.
                      if p < length label_names then Inr model else Inl IndexError)
                 else Inl IndexError)
            else Inl IndexError))"

fun sample_predictions ::
  "(nat \<Rightarrow> nat) \<Rightarrow> matrix \<Rightarrow> matrix \<Rightarrow> nat \<Rightarrow> real price_predictor \<Rightarrow> np_error + real price_predictor" where
  "sample_predictions rint X_test y_test 0 model = Inr model"
| "sample_predictions rint X_test y_test (Suc i) model =
     bnd (sample_predictions rint X_test y_test i model)
       (sample_prediction X_test y_test (rint i))"

text \<open>
  \<^verbatim>\<open>train\<close>. With no sample \<^verbatim>\<open>np.array([])\<close> is one-dimensional and
  \<^verbatim>\<open>np.argmax(y_train, axis=1)\<close> raises. \<open>weights_path\<close> is the file \<^verbatim>\<open>weights.json\<close>
  beside the script. The result is the returned model together with the files.
\<close>

definition train ::
  "nat \<Rightarrow> nat \<Rightarrow> real \<Rightarrow> train_rng \<Rightarrow> (real json \<Rightarrow> string) \<Rightarrow> string \<Rightarrow> (string \<rightharpoonup> string)
     \<Rightarrow> np_error + (real price_predictor \<times> (string \<rightharpoonup> string))" where
  "train epochs n_samples learning_rate rng dumps weights_path files =
     (let (Xf, yl) = generate_training_data n_samples (sample_rng rng) in
      if n_samples = 0 then Inl AxisError
      else bnd (finite_matrix Xf) (\<lambda>X.
        let y = map (map real_of_int) yl;
            (X_train, X_test, y_train, y_test) = split_data X y
        in
        bnd (init_predictor 4 16 3 (randn_W1 rng) (randn_W2 rng)) (\<lambda>model.
        bnd (train_epochs (permutation rng) X_train y_train X_test y_test learning_rate epochs model)
          (\<lambda>model.
        bnd (forward model X_test) (\<lambda>(model, test_pred).
        bnd (metric (accuracy test_pred y_test)) (\<lambda>final_acc.
        let files = export_weights dumps model weights_path files in
        bnd (sample_predictions (randint rng) X_test y_test 5 model) (\<lambda>model.
        Inr (model, files))))))))"

subsection \<open>Predicates of the statements\<close>

text \<open>Exactly one entry is 1 and the others are 0.\<close>

definition one_hot :: "'a::zero_neq_one list \<Rightarrow> bool" where
  "one_hot l = (length (filter (\<lambda>v. v = 1) l) = 1 \<and> (\<forall>v \<in> set l. v = 0 \<or> v = 1))"

text \<open>A finite value of the closed interval from \<open>-1\<close> to 1\<close>

definition in_unit_range :: "npfloat \<Rightarrow> bool" where
  "in_unit_range x = (case x of Fin v \<Rightarrow> - 1 \<le> v \<and> v \<le> 1 | _ \<Rightarrow> False)"

text \<open>
  The shapes that \<^verbatim>\<open>__init__\<close> establishes for positive sizes: \<open>W1\<close> is
  \<open>input_size \<times> hidden_size\<close>, \<open>W2\<close> is \<open>hidden_size \<times> output_size\<close>, and the biases
  have the lengths of the layers.
\<close>

definition well_formed :: "'a price_predictor \<Rightarrow> bool" where
  "well_formed self =
     (0 < input_size self \<and> 0 < hidden_size self \<and> 0 < output_size self
      \<and> has_shape (W1 self) (input_size self) (hidden_size self)
      \<and> length (b1 self) = hidden_size self
      \<and> has_shape (W2 self) (hidden_size self) (output_size self)
      \<and> length (b2 self) = output_size self)"

text \<open>The four parameters of a model, and the model without its cached activations\<close>

definition parameters :: "'a price_predictor \<Rightarrow> 'a list list \<times> 'a list \<times> 'a list list \<times> 'a list" where
  "parameters self = (W1 self, b1 self, W2 self, b2 self)"

definition forget_cache :: "'a price_predictor \<Rightarrow> 'a price_predictor" where
  "forget_cache self = self\<lparr>z1 := None, a1 := None, z2 := None, a2 := None\<rparr>"

subsection \<open>The computations in the words of the specification\<close>

text \<open>
  The softmax of a matrix as the textbook defines it, with no shift by the row maximum.
  It is not part of the source; it is what \<open>softmax\<close> is compared with.
\<close>

definition softmax_unshifted :: "matrix \<Rightarrow> matrix" where
  "softmax_unshifted Z = map (\<lambda>r. map (\<lambda>v. exp v / sum_list (map exp r)) r) Z"

text \<open>
  The batch mean of \<open>- sum (label * log prediction)\<close> over the clipped predictions, as
  the specification words the loss. It is not part of the source; it is what
  \<open>compute_loss\<close> is compared with.
\<close>

definition cross_entropy_mean :: "matrix \<Rightarrow> matrix \<Rightarrow> real" where
  "cross_entropy_mean predictions labels =
     sum_list (map2 (\<lambda>p y. - sum_list (map2 (\<lambda>label prediction.
         label * ln (clip prediction (1 / 10 ^ 15) (1 - 1 / 10 ^ 15))) y p)) predictions labels)
       / real (length predictions)"

text \<open>The hidden pre-activation \<open>Z1 = X \<cdot> W1 + b1\<close>, entry by entry\<close>

definition hidden_pre_activation :: "real price_predictor \<Rightarrow> matrix \<Rightarrow> matrix" where
  "hidden_pre_activation self X =
     mk_matrix (length X) (hidden_size self)
       (\<lambda>k i. (\<Sum>p<input_size self. X ! k ! p * W1 self ! p ! i) + b1 self ! i)"

text \<open>
  One plain gradient-descent step, entry by entry: \<open>dZ2 = A2 - Y\<close> is the gradient at
  the output layer, \<open>dZ1\<close> the gradient at the hidden layer, gated by the derivative of
  ReLU at \<open>Z1\<close>; the four gradients are averaged over the \<open>m\<close> samples of the batch, and
  each parameter is replaced by itself minus the learning rate times its averaged
  gradient. It is not part of the source; it is what \<open>backward\<close> is compared with.
\<close>

definition gradient_descent_step ::
  "real price_predictor \<Rightarrow> matrix \<Rightarrow> matrix \<Rightarrow> real \<Rightarrow> matrix \<Rightarrow> matrix \<Rightarrow> matrix \<Rightarrow> real price_predictor" where
  "gradient_descent_step self X Y learning_rate Z1 A1 A2 =
     (let m = length X;
          dZ2 = (\<lambda>k j. A2 ! k ! j - Y ! k ! j);
          dZ1 = (\<lambda>k i. (\<Sum>j<output_size self. dZ2 k j * W2 self ! i ! j)
                          * (if Z1 ! k ! i > 0 then 1 else 0));
          dW2 = (\<lambda>i j. (\<Sum>k<m. A1 ! k ! i * dZ2 k j) / real m);
          db2 = (\<lambda>j. (\<Sum>k<m. dZ2 k j) / real m);
          dW1 = (\<lambda>p i. (\<Sum>k<m. X ! k ! p * dZ1 k i) / real m);
          db1 = (\<lambda>i. (\<Sum>k<m. dZ1 k i) / real m)
      in self\<lparr>
        W2 := mk_matrix (hidden_size self) (output_size self)
                (\<lambda>i j. W2 self ! i ! j - learning_rate * dW2 i j),
        b2 := mk_vec (output_size self) (\<lambda>j. b2 self ! j - learning_rate * db2 j),
        W1 := mk_matrix (input_size self) (hidden_size self)
                (\<lambda>p i. W1 self ! p ! i - learning_rate * dW1 p i),
        b1 := mk_vec (hidden_size self) (\<lambda>i. b1 self ! i - learning_rate * db1 i)\<rparr>)"

subsection \<open>Concrete inputs\<close>

text \<open>A network with one input, one hidden unit and two classes, before its first forward pass\<close>

definition tiny_model :: "real price_predictor" where
  "tiny_model = \<lparr>input_size = 1, hidden_size = 1, output_size = 2,
     W1 = [[1]], b1 = [0], W2 = [[0, 0]], b2 = [0, 0],
     z1 = None, a1 = None, z2 = None, a2 = None\<rparr>"

text \<open>The same network after \<open>forward\<close> on the batch \<open>[[1]]\<close>\<close>

definition tiny_model_run :: "real price_predictor" where
  "tiny_model_run = tiny_model\<lparr>z1 := Some [[1]], a1 := Some [[1]],
     z2 := Some [[0, 0]], a2 := Some [[1 / 2, 1 / 2]]\<rparr>"

text \<open>Draws that keep every price away from zero: the prices are 100, 101, 102, 103, 104.\<close>

definition steady_draws :: sample_draws where
  "steady_draws = \<lparr>trend = 1, unif = (\<lambda>i. 1), gauss = (\<lambda>i. 0)\<rparr>"

text \<open>
  Draws of a whole run: steady prices, weights that start at zero, the permutation of an
  empty training subset, and sample predictions of row 0.
\<close>

definition quiet_rng :: train_rng where
  "quiet_rng = \<lparr>sample_rng = (\<lambda>k. steady_draws), randn_W1 = (\<lambda>i j. 0), randn_W2 = (\<lambda>i j. 0),
     permutation = (\<lambda>epoch. []), randint = (\<lambda>i. 0)\<rparr>"

text \<open>
  Draws of a run on two samples: the training subset is the first sample, and every
  epoch's permutation of its one index is \<open>[0]\<close>.
\<close>

definition busy_rng :: train_rng where
  "busy_rng = \<lparr>sample_rng = (\<lambda>k. steady_draws), randn_W1 = (\<lambda>i j. 0), randn_W2 = (\<lambda>i j. 0),
     permutation = (\<lambda>epoch. [0]), randint = (\<lambda>i. 0)\<rparr>"

text \<open>
  The state of the classifier of \<^verbatim>\<open>train\<close> after a training step on an empty training
  subset: the four gradients are \<^verbatim>\<open>0.0 / 0\<close>, so every parameter is \<^verbatim>\<open>nan\<close>.
\<close>

definition nan_model :: "npfloat price_predictor" where
  "nan_model = \<lparr>input_size = 4, hidden_size = 16, output_size = 3,
     W1 = replicate 4 (replicate 16 NaN), b1 = replicate 16 NaN,
     W2 = replicate 16 (replicate 3 NaN), b2 = replicate 3 NaN,
     z1 = Some [], a1 = Some [], z2 = Some [], a2 = Some []\<rparr>"

section \<open>Properties\<close>

subsection \<open>The labelling rule\<close>

lemma length_build_prices: "length (build_prices d k) = Suc k"
  by (induction k) (simp_all add: Let_def)

lemma build_prices_first: "build_prices d k ! 0 = 100"
  by (induction k) (simp_all add: Let_def nth_append length_build_prices)

text \<open>
  Claim C4. The label of a generated sample is a function of \<open>total_change\<close> alone,
  the percentage change from the first to the last of the five prices: it is UP
  \<open>[1, 0, 0]\<close> exactly when \<open>total_change > 1.5\<close>, DOWN \<open>[0, 1, 0]\<close> exactly when
  \<open>total_change < -1.5\<close>, and SIDEWAYS \<open>[0, 0, 1]\<close> otherwise. The values \<open>1.5\<close> and
  \<open>-1.5\<close> give SIDEWAYS, \<open>2\<close> gives UP, \<open>-2\<close> gives DOWN and \<open>0\<close> gives SIDEWAYS.
\<close>

theorem label_determined_by_total_change:
  "snd (generate_sample d) = label_of_change (total_change_of (build_prices d 4))
   \<and> length (build_prices d 4) = 5
   \<and> total_change_of (build_prices d 4) = (last (build_prices d 4) - 100) / 100 * 100
   \<and> (label_of_change t = [1, 0, 0] \<longleftrightarrow> t > 1.5)
   \<and> (label_of_change t = [0, 1, 0] \<longleftrightarrow> t < - 1.5)
   \<and> (label_of_change t = [0, 0, 1] \<longleftrightarrow> \<not> t > 1.5 \<and> \<not> t < - 1.5)
   \<and> label_of_change 1.5 = [0, 0, 1]
   \<and> label_of_change (- 1.5) = [0, 0, 1]
   \<and> label_of_change 2 = [1, 0, 0]
   \<and> label_of_change (- 2) = [0, 1, 0]
   \<and> label_of_change 0 = [0, 0, 1]"
proof -
  have "snd (generate_sample d) = label_of_change (total_change_of (build_prices d 4))"
    by (simp add: generate_sample_def Let_def)
  moreover have "length (build_prices d 4) = 5"
    by (simp add: length_build_prices)
  moreover have "total_change_of (build_prices d 4) = (last (build_prices d 4) - 100) / 100 * 100"
    by (simp add: total_change_of_def build_prices_first)
  moreover have "label_of_change t = [1, 0, 0] \<longleftrightarrow> t > 1.5"
    by (simp add: label_of_change_def)
  moreover have "label_of_change t = [0, 1, 0] \<longleftrightarrow> t < - 1.5"
    by (simp add: label_of_change_def)
  moreover have "label_of_change t = [0, 0, 1] \<longleftrightarrow> \<not> t > 1.5 \<and> \<not> t < - 1.5"
    by (simp add: label_of_change_def)
  moreover have "label_of_change 1.5 = [0, 0, 1]" "label_of_change (- 1.5) = [0, 0, 1]"
    "label_of_change 2 = [1, 0, 0]" "label_of_change (- 2) = [0, 1, 0]"
    "label_of_change 0 = [0, 0, 1]"
    by (simp_all add: label_of_change_def)
  ultimately show ?thesis by blast
qed

subsection \<open>The split into training and evaluation subsets\<close>

lemma split_index_div: "split_index n = (4 * n) div 5"
proof -
  have "(0.8::real) * real n = real (4 * n) / real 5" by simp
  then have "\<lfloor>(0.8::real) * real n\<rfloor> = int ((4 * n) div 5)"
    by (simp only: floor_divide_of_nat_eq)
  then show ?thesis by (simp add: split_index_def)
qed

lemma split_index_le: "split_index n \<le> n"
  by (simp add: split_index_div)

text \<open>
  Claim C6. For a dataset of \<open>n\<close> samples the split takes the first
  \<open>\<lfloor>0.8 * n\<rfloor>\<close> samples, in generation order, as the training subset and the rest as
  the evaluation subset, features and labels at the same index. The two subsets
  occupy disjoint positions that together cover the dataset, and no reordering is
  involved: position \<open>i\<close> of the training subset is position \<open>i\<close> of the dataset and
  position \<open>j\<close> of the evaluation subset is position \<open>split + j\<close>.
\<close>

theorem split_first_four_fifths:
  "split_data X y =
     (take (split_index (length X)) X, drop (split_index (length X)) X,
      take (split_index (length X)) y, drop (split_index (length X)) y)
   \<and> split_index (length X) = nat \<lfloor>0.8 * real (length X)\<rfloor>
   \<and> split_index (length X) \<le> length X
   \<and> take (split_index (length X)) X @ drop (split_index (length X)) X = X
   \<and> take (split_index (length X)) y @ drop (split_index (length X)) y = y
   \<and> (\<forall>i < split_index (length X). take (split_index (length X)) X ! i = X ! i)
   \<and> (\<forall>j < length X - split_index (length X).
         drop (split_index (length X)) X ! j = X ! (split_index (length X) + j))
   \<and> {..<split_index (length X)} \<inter> {split_index (length X)..<length X} = {}
   \<and> {..<split_index (length X)} \<union> {split_index (length X)..<length X} = {..<length X}"
proof -
  have le: "split_index (length X) \<le> length X" by (rule split_index_le)
  have "{..<split_index (length X)} \<union> {split_index (length X)..<length X} = {..<length X}"
    using le by auto
  moreover have "{..<split_index (length X)} \<inter> {split_index (length X)..<length X} = {}"
    by auto
  moreover have "split_data X y =
     (take (split_index (length X)) X, drop (split_index (length X)) X,
      take (split_index (length X)) y, drop (split_index (length X)) y)"
    by (simp add: split_data_def Let_def)
  moreover have "split_index (length X) = nat \<lfloor>0.8 * real (length X)\<rfloor>"
    by (simp add: split_index_def)
  ultimately show ?thesis using le by simp
qed

theorem split_first_four_fifths_witness:
  "split_data [10, 20, 30, 40, 50 :: nat] [1, 2, 3, 4, 5 :: nat]
     = ([10, 20, 30, 40], [50], [1, 2, 3, 4], [5])
   \<and> split_index 5 = 4
   \<and> take 4 [10, 20, 30, 40, 50 :: nat] ! 3 = 40
   \<and> drop 4 [10, 20, 30, 40, 50 :: nat] ! 0 = 50"
  using split_first_four_fifths [of "[10, 20, 30, 40, 50 :: nat]" "[1, 2, 3, 4, 5 :: nat]"]
  by (simp add: split_index_div)

subsection \<open>The export\<close>

text \<open>
  Claim C9. The export is a function of the parameters and sizes of the model: two
  model states that agree on \<open>W1\<close>, \<open>b1\<close>, \<open>W2\<close>, \<open>b2\<close> and the three sizes, whatever
  their cached activations, write the same content, which is the serialized document
  and nothing else; and exporting again leaves the files as the first export left them.
\<close>

theorem export_depends_only_on_parameters:
  assumes "input_size s = input_size t" and "hidden_size s = hidden_size t"
    and "output_size s = output_size t"
    and "W1 s = W1 t" and "b1 s = b1 t" and "W2 s = W2 t" and "b2 s = b2 t"
  shows "export_weights dumps s path files = export_weights dumps t path files
    \<and> export_weights dumps s path files path = Some (dumps (weights_document t))
    \<and> export_weights dumps t path (export_weights dumps s path files)
        = export_weights dumps s path files"
proof -
  have "weights_document s = weights_document t"
    using assms by (simp add: weights_document_def)
  then show ?thesis by (simp add: export_weights_def)
qed

theorem export_depends_only_on_parameters_witness:
  "export_weights (\<lambda>d. ''doc'') tiny_model ''weights.json'' Map.empty
     = export_weights (\<lambda>d. ''doc'') tiny_model_run ''weights.json'' Map.empty
   \<and> z1 tiny_model \<noteq> z1 tiny_model_run"
  using export_depends_only_on_parameters
    [of tiny_model tiny_model_run "\<lambda>d. ''doc''" "''weights.json''" Map.empty]
  by (simp add: tiny_model_def tiny_model_run_def)

subsection \<open>The generated dataset\<close>

lemma normalize_delta_cases:
  "normalize_delta d = (case d of
      Fin v \<Rightarrow> Fin (if v / 5 < - 1 then - 1 else if 1 < v / 5 then 1 else v / 5)
    | PInf \<Rightarrow> Fin 1 | NInf \<Rightarrow> Fin (- 1) | NaN \<Rightarrow> NaN)"
  by (cases d) (auto simp: normalize_delta_def py_min_def py_max_def)

lemma normalize_delta_range: "normalize_delta d = NaN \<or> in_unit_range (normalize_delta d)"
  by (cases d) (auto simp: normalize_delta_cases in_unit_range_def)

lemma generate_fst:
  "fst (generate_training_data n rng) = map (\<lambda>k. fst (generate_sample (rng k))) [0..<n]"
  by (induction n) (simp_all add: Let_def case_prod_beta)

lemma generate_snd:
  "snd (generate_training_data n rng) = map (\<lambda>k. snd (generate_sample (rng k))) [0..<n]"
  by (induction n) (simp_all add: Let_def case_prod_beta)

lemma label_one_hot: "length (label_of_change t) = 3 \<and> one_hot (label_of_change t)"
  by (simp add: label_of_change_def one_hot_def)

lemma sample_features:
  "fst (generate_sample d) =
     map (\<lambda>i. normalize_delta (fl_times_100 (fl_div (build_prices d 4 ! (i + 1) - build_prices d 4 ! i) (build_prices d 4 ! i)))) [0..<4]"
  by (simp add: generate_sample_def Let_def percent_deltas_def)

lemma sample_feature_props:
  "length (fst (generate_sample d)) = 4
   \<and> (\<forall>x \<in> set (fst (generate_sample d)). x = NaN \<or> in_unit_range x)"
  unfolding sample_features using normalize_delta_range by auto

lemma upt_0_4: "[0..<4] = [0, 1, 2, 3]"
  by (simp add: upt_rec)

lemma build_prices_nth:
  "i \<le> k \<Longrightarrow> build_prices d k ! i = 100 + (\<Sum>j<i. real_of_int (trend d) * unif d j + gauss d j)"
proof (induction k arbitrary: i)
  case 0
  then show ?case by simp
next
  case (Suc k)
  show ?case
  proof (cases "i \<le> k")
    case True
    then show ?thesis
      using Suc.IH [of i] by (simp add: Let_def nth_append length_build_prices)
  next
    case False
    then have i: "i = Suc k" using Suc.prems by simp
    have "last (build_prices d k) = build_prices d k ! k"
      using length_build_prices [of d k] by (simp add: last_conv_nth flip: length_greater_0_conv)
    then show ?thesis
      using Suc.IH [of k] by (simp add: i Let_def nth_append length_build_prices)
  qed
qed

lemma change_bound:
  assumes "draws_in_range d" and "j < 4"
  shows "- 32 \<le> real_of_int (trend d) * unif d j + gauss d j"
proof -
  have u: "1 / 2 \<le> unif d j" "unif d j \<le> 2" and g: "\<bar>gauss d j\<bar> \<le> 30"
    using assms by (simp_all add: draws_in_range_def)
  have "trend d = - 1 \<or> trend d = 0 \<or> trend d = 1"
    using assms by (simp add: draws_in_range_def)
  then show ?thesis using u g by auto
qed

lemma divisor_price_positive:
  assumes "draws_in_range d" and "i < 4"
  shows "0 < build_prices d 4 ! i"
proof -
  have "- 32 * real i \<le> (\<Sum>j<i. real_of_int (trend d) * unif d j + gauss d j)"
    using sum_bounded_below [of "{..<i}" "- 32" "\<lambda>j. real_of_int (trend d) * unif d j + gauss d j"]
      change_bound [OF assms(1)] assms(2) by simp
  moreover have "real i \<le> 3" using assms(2) by simp
  ultimately show ?thesis
    using assms(2) by (simp add: build_prices_nth)
qed

lemma sample_features_in_range:
  assumes "draws_in_range d"
  shows "\<forall>x \<in> set (fst (generate_sample d)). in_unit_range x"
proof -
  have "in_unit_range (normalize_delta (fl_times_100 (fl_div (q - p) p)))" if "0 < p" for p q :: real
    using that by (simp add: fl_div_def normalize_delta_cases in_unit_range_def)
  then show ?thesis
    unfolding sample_features using divisor_price_positive [OF assms] by auto
qed

text \<open>
  Claim C5. For every sample count and every outcome of the draws, the generator
  returns features and labels of that length, aligned by index: position \<open>k\<close> of
  both comes from the draws of round \<open>k\<close>. Every label has three entries and is
  one-hot, and every feature row has four entries. When the draws are values that the
  samplers return, each divisor price is positive and every feature is a number of the
  closed interval from \<open>-1\<close> to 1.
\<close>

theorem generated_dataset_shape_and_range:
  "length (fst (generate_training_data n rng)) = n
   \<and> length (snd (generate_training_data n rng)) = n
   \<and> (\<forall>k < n. fst (generate_training_data n rng) ! k = fst (generate_sample (rng k))
         \<and> snd (generate_training_data n rng) ! k = snd (generate_sample (rng k)))
   \<and> (\<forall>l \<in> set (snd (generate_training_data n rng)). length l = 3 \<and> one_hot l)
   \<and> (\<forall>r \<in> set (fst (generate_training_data n rng)). length r = 4)
   \<and> ((\<forall>k < n. draws_in_range (rng k)) \<longrightarrow>
         (\<forall>r \<in> set (fst (generate_training_data n rng)). \<forall>x \<in> set r. in_unit_range x))"
proof -
  have "\<forall>l \<in> set (snd (generate_training_data n rng)). length l = 3 \<and> one_hot l"
    by (auto simp: generate_snd generate_sample_def Let_def label_one_hot)
  moreover have "\<forall>r \<in> set (fst (generate_training_data n rng)). length r = 4"
    using sample_feature_props by (auto simp: generate_fst)
  moreover have "\<forall>r \<in> set (fst (generate_training_data n rng)). \<forall>x \<in> set r. in_unit_range x"
    if "\<forall>k < n. draws_in_range (rng k)"
    using that sample_features_in_range by (auto simp: generate_fst)
  ultimately show ?thesis by (simp add: generate_fst generate_snd)
qed

theorem generated_dataset_shape_and_range_witness:
  "generate_training_data 1 (\<lambda>k. steady_draws) = ([[Fin (1/5), Fin (20 / 101), Fin (10 / 51), Fin (20 / 103)]], [[1, 0, 0]])
   \<and> draws_in_range steady_draws
   \<and> in_unit_range (Fin (1/5)) \<and> in_unit_range (Fin (20 / 101)) \<and> in_unit_range (Fin (10 / 51))
   \<and> in_unit_range (Fin (20 / 103)) \<and> one_hot [1, 0, 0 :: int]"
proof -
  have d: "draws_in_range steady_draws"
    by (simp add: draws_in_range_def steady_draws_def)
  have s: "generate_sample steady_draws = ([Fin (1/5), Fin (20 / 101), Fin (10 / 51), Fin (20 / 103)], [1, 0, 0])"
    by (simp add: generate_sample_def Let_def percent_deltas_def upt_0_4 fl_div_def normalize_delta_cases total_change_of_def
      label_of_change_def eval_nat_numeral steady_draws_def)
  have g: "generate_training_data 1 (\<lambda>k. steady_draws) = ([[Fin (1/5), Fin (20 / 101), Fin (10 / 51), Fin (20 / 103)]], [[1, 0, 0]])"
    by (simp add: s)
  show ?thesis
    using generated_dataset_shape_and_range [of 1 "\<lambda>k. steady_draws"] d
    unfolding g by (simp add: s)
qed

subsection \<open>Softmax\<close>

lemma bnd_Inr [simp]: "bnd (Inr v) f = f v"
  by (simp add: bnd_def)

lemma bnd_Inl [simp]: "bnd (Inl e) f = Inl e"
  by (simp add: bnd_def)

lemma map_e_Inr:
  assumes "\<And>x. x \<in> set xs \<Longrightarrow> f x = Inr (g x)"
  shows "map_e f xs = Inr (map g xs)"
  using assms by (induction xs) simp_all

lemma sum_list_map_divide:
  "sum_list (map (\<lambda>x. f x / c) xs) = sum_list (map f xs) / (c :: real)"
  by (induction xs) (simp_all add: add_divide_distrib)

lemma ln_2_bounds: "0 < ln (2::real)" "1075 * ln (2::real) < 1000"
proof -
  show "0 < ln (2::real)" by simp
  have "1 + 0.465 \<le> exp (0.465::real)"
    by (rule exp_ge_add_one_self)
  then have "1.465 * 1.465 \<le> exp (0.465::real) * exp 0.465"
    by (intro mult_mono) simp_all
  then have "2 \<le> exp (0.465 + 0.465 :: real)"
    unfolding exp_add by simp
  then have "ln 2 \<le> ln (exp (0.93::real))"
    by (subst ln_le_cancel_iff) simp_all
  then show "1075 * ln (2::real) < 1000" by simp
qed

lemma np_exp_zero [simp]: "np_exp 0 = 1"
  using ln_2_bounds(1) by (simp add: np_exp_def)

lemma np_exp_underflow [simp]: "np_exp (- 1000) = 0"
  using ln_2_bounds(2) by (simp add: np_exp_def)

lemma np_exp_nonneg: "0 \<le> np_exp x"
  by (simp add: np_exp_def)

lemma np_max_eq_Max:
  assumes "r \<noteq> []"
  shows "np_max r = Inr (Max (set r))"
proof -
  obtain v vs where r: "r = v # vs" using assms by (cases r) auto
  have "fold max vs v = Max (set (v # vs))" by (rule Max.set_eq_fold [symmetric])
  then show ?thesis by (simp add: np_max_def r)
qed

lemma softmax_row_explicit:
  assumes "r \<noteq> []"
  shows "softmax_row r = Inr (map (\<lambda>v. np_exp (v - Max (set r))
            / sum_list (map (\<lambda>u. np_exp (u - Max (set r))) r)) r)"
  by (simp add: softmax_row_def np_max_eq_Max [OF assms] Let_def comp_def)

lemma sum_list_np_exp_nonneg: "0 \<le> sum_list (map (\<lambda>u. np_exp (u - c)) xs)"
  by (induction xs) (simp_all add: add_nonneg_nonneg np_exp_nonneg)

lemma np_exp_le_sum:
  assumes "v \<in> set r"
  shows "np_exp (v - c) \<le> sum_list (map (\<lambda>u. np_exp (u - c)) r)"
proof -
  obtain xs ys where r: "r = xs @ v # ys"
    using assms by (auto dest: split_list)
  show ?thesis
    unfolding r using sum_list_np_exp_nonneg [of c xs] sum_list_np_exp_nonneg [of c ys] by simp
qed

lemma softmax_denominator:
  assumes "r \<noteq> []"
  shows "1 \<le> sum_list (map (\<lambda>u. np_exp (u - Max (set r))) r)"
proof -
  have "Max (set r) \<in> set r" using assms by (intro Max_in) simp_all
  then show ?thesis
    using np_exp_le_sum [of "Max (set r)" r "Max (set r)"] by simp
qed

lemma softmax_row_properties:
  assumes "r \<noteq> []"
  shows "\<exists>a. softmax_row r = Inr a \<and> length a = length r \<and> sum_list a = 1
    \<and> (\<forall>j < length r. 0 \<le> a ! j \<and> a ! j \<le> 1
          \<and> (r ! j - Max (set r) \<le> - 1075 * ln 2 \<longrightarrow> a ! j = 0))"
proof -
  let ?s = "sum_list (map (\<lambda>u. np_exp (u - Max (set r))) r)"
  let ?a = "map (\<lambda>v. np_exp (v - Max (set r)) / ?s) r"
  have s: "1 \<le> ?s" using assms by (rule softmax_denominator)
  have "sum_list ?a = ?s / ?s" by (rule sum_list_map_divide)
  then have one: "sum_list ?a = 1" using s by simp
  have "0 \<le> ?a ! j \<and> ?a ! j \<le> 1 \<and> (r ! j - Max (set r) \<le> - 1075 * ln 2 \<longrightarrow> ?a ! j = 0)"
    if "j < length r" for j
  proof -
    have "np_exp (r ! j - Max (set r)) \<le> ?s"
      using that by (intro np_exp_le_sum) simp
    then have "np_exp (r ! j - Max (set r)) / ?s \<le> 1"
      using s by simp
    moreover have "0 \<le> np_exp (r ! j - Max (set r)) / ?s"
      using s by (simp add: np_exp_nonneg)
    moreover have "np_exp (r ! j - Max (set r)) / ?s = 0" if "r ! j - Max (set r) \<le> - 1075 * ln 2"
      using that by (simp add: np_exp_def)
    ultimately show ?thesis using that by simp
  qed
  then show ?thesis
    using one by (intro exI [of _ ?a]) (simp add: softmax_row_explicit [OF assms])
qed

lemma sum_list_exp_pos: "xs \<noteq> [] \<Longrightarrow> 0 < sum_list (map exp (xs :: real list))"
proof (induction xs)
  case Nil
  then show ?case by simp
next
  case (Cons x xs)
  then show ?case by (cases "xs = []") (simp_all add: add_pos_pos)
qed

lemma softmax_row_without_underflow:
  assumes "r \<noteq> []" and "\<forall>v \<in> set r. - 1075 * ln 2 < v - Max (set r)"
  shows "softmax_row r = Inr (map (\<lambda>v. exp v / sum_list (map exp r)) r)"
proof -
  let ?mx = "Max (set r)"
  have e: "np_exp (v - ?mx) = exp v / exp ?mx" if "v \<in> set r" for v
    using assms(2) that by (simp add: np_exp_def exp_diff not_le [symmetric])
  then have m: "map (\<lambda>u. np_exp (u - ?mx)) r = map (\<lambda>u. exp u / exp ?mx) r"
    by simp
  have s: "sum_list (map (\<lambda>u. np_exp (u - ?mx)) r) = sum_list (map exp r) / exp ?mx"
    unfolding m by (rule sum_list_map_divide)
  have "np_exp (v - ?mx) / sum_list (map (\<lambda>u. np_exp (u - ?mx)) r) = exp v / sum_list (map exp r)"
    if "v \<in> set r" for v
    unfolding s e [OF that] by simp
  then show ?thesis
    by (simp add: softmax_row_explicit [OF assms(1)])
qed

lemma softmax_shape:
  assumes "has_shape Z m n" and "0 < n"
  shows "\<exists>A. softmax Z = Inr A \<and> has_shape A m n"
proof -
  let ?g = "\<lambda>r. map (\<lambda>v. np_exp (v - Max (set r))
            / sum_list (map (\<lambda>u. np_exp (u - Max (set r))) r)) r"
  have "softmax_row r = Inr (?g r)" if "r \<in> set Z" for r
  proof -
    have "r \<noteq> []" using assms that by (auto simp: has_shape_def)
    then show ?thesis by (rule softmax_row_explicit)
  qed
  then have "softmax Z = Inr (map ?g Z)"
    unfolding softmax_def by (rule map_e_Inr)
  moreover have "has_shape (map ?g Z) m n"
    using assms(1) by (auto simp: has_shape_def)
  ultimately show ?thesis by blast
qed

text \<open>
  Claim C2, amended. For every matrix whose rows are not empty, \<open>softmax\<close> with the
  subtraction of the row maximum returns a matrix of the same shape; each of its rows
  sums to 1 and each entry lies in the closed interval from 0 to 1. An entry that lies
  \<open>1075 * ln 2\<close> or more below the maximum of its row becomes exactly 0, because its
  exponential underflows, and a row in which no entry lies that far below the maximum
  is the row of the unshifted softmax. The sums and the quotients are those of exact
  arithmetic: the machine format rounds them.
\<close>

theorem softmax_rows_are_distributions:
  assumes "\<forall>r \<in> set Z. r \<noteq> []"
  shows "\<exists>A. softmax Z = Inr A \<and> length A = length Z
    \<and> (\<forall>i < length Z. length (A ! i) = length (Z ! i)
          \<and> sum_list (A ! i) = 1
          \<and> (\<forall>j < length (Z ! i). 0 \<le> A ! i ! j \<and> A ! i ! j \<le> 1
                \<and> (Z ! i ! j - Max (set (Z ! i)) \<le> - 1075 * ln 2 \<longrightarrow> A ! i ! j = 0))
          \<and> ((\<forall>v \<in> set (Z ! i). - 1075 * ln 2 < v - Max (set (Z ! i)))
                \<longrightarrow> A ! i = softmax_unshifted Z ! i))"
proof -
  have "\<exists>a. softmax_row r = Inr a \<and> length a = length r \<and> sum_list a = 1
    \<and> (\<forall>j < length r. 0 \<le> a ! j \<and> a ! j \<le> 1
          \<and> (r ! j - Max (set r) \<le> - 1075 * ln 2 \<longrightarrow> a ! j = 0))" if "r \<in> set Z" for r
    using assms that by (intro softmax_row_properties) simp
  then obtain g where g: "\<And>r. r \<in> set Z \<Longrightarrow> softmax_row r = Inr (g r) \<and> length (g r) = length r
    \<and> sum_list (g r) = 1
    \<and> (\<forall>j < length r. 0 \<le> g r ! j \<and> g r ! j \<le> 1
          \<and> (r ! j - Max (set r) \<le> - 1075 * ln 2 \<longrightarrow> g r ! j = 0))"
    by metis
  have run: "softmax Z = Inr (map g Z)"
    unfolding softmax_def using g by (intro map_e_Inr) simp
  have "length (map g Z ! i) = length (Z ! i)
          \<and> sum_list (map g Z ! i) = 1
          \<and> (\<forall>j < length (Z ! i). 0 \<le> map g Z ! i ! j \<and> map g Z ! i ! j \<le> 1
                \<and> (Z ! i ! j - Max (set (Z ! i)) \<le> - 1075 * ln 2 \<longrightarrow> map g Z ! i ! j = 0))
          \<and> ((\<forall>v \<in> set (Z ! i). - 1075 * ln 2 < v - Max (set (Z ! i)))
                \<longrightarrow> map g Z ! i = softmax_unshifted Z ! i)" if i: "i < length Z" for i
  proof -
    have mem: "Z ! i \<in> set Z" using i by simp
    then have ne: "Z ! i \<noteq> []" using assms by simp
    have "map g Z ! i = softmax_unshifted Z ! i"
      if "\<forall>v \<in> set (Z ! i). - 1075 * ln 2 < v - Max (set (Z ! i))"
    proof -
      have "softmax_row (Z ! i) = Inr (map (\<lambda>v. exp v / sum_list (map exp (Z ! i))) (Z ! i))"
        using ne that by (rule softmax_row_without_underflow)
      then have "g (Z ! i) = map (\<lambda>v. exp v / sum_list (map exp (Z ! i))) (Z ! i)"
        using g [OF mem] by simp
      then show ?thesis
        using i by (simp add: softmax_unshifted_def)
    qed
    then show ?thesis
      using g [OF mem] i by simp
  qed
  then show ?thesis
    using run by (intro exI [of _ "map g Z"]) simp
qed

theorem softmax_rows_are_distributions_witness:
  "softmax [[0, 0], [0, - 1000]] = Inr [[1 / 2, 1 / 2], [1, 0]]
   \<and> sum_list [1 / 2, 1 / 2 :: real] = 1 \<and> sum_list [1, 0 :: real] = 1
   \<and> softmax_unshifted [[0, 0], [0, - 1000]] ! 0 = [1 / 2, 1 / 2]"
  using softmax_rows_are_distributions [of "[[0, 0], [0, - 1000]]"]
  by (simp add: softmax_def softmax_row_def np_max_def softmax_unshifted_def)

text \<open>
  As stated, C2 fails on a row of three entries, the width of the output layer of
  \<^verbatim>\<open>train\<close>: the exponentials of the two entries that lie 1000 below the maximum
  underflow, and the row becomes exactly 1, 0, 0, which has no entry strictly between
  0 and 1.
\<close>

theorem softmax_underflow_counterexample:
  "softmax [[0, - 1000, - 1000]] = Inr [[1, 0, 0]]
   \<and> \<not> ((1::real) < 1) \<and> \<not> ((0::real) < 0)"
  by (simp add: softmax_def softmax_row_def np_max_def)

subsection \<open>The loss\<close>

lemma vec_op_Inr: "length u = length v \<Longrightarrow> vec_op f u v = Inr (map2 f u v)"
  by (simp add: vec_op_def)

lemma mat_op_Inr:
  assumes "length A = length B" and "\<forall>(r, s) \<in> set (zip A B). length r = length s"
  shows "mat_op f A B = Inr (map2 (map2 f) A B)"
proof -
  have "map_e (\<lambda>(r, s). vec_op f r s) (zip A B) = Inr (map (\<lambda>(r, s). map2 f r s) (zip A B))"
    using assms(2) by (intro map_e_Inr) (auto simp: vec_op_Inr)
  then show ?thesis using assms(1) by (simp add: mat_op_def)
qed

lemma clipped_log_negative: "ln (clip v (1 / 10 ^ 15) (1 - 1 / 10 ^ 15)) < 0"
proof -
  have "0 < clip v (1 / 10 ^ 15) (1 - 1 / 10 ^ 15)" "clip v (1 / 10 ^ 15) (1 - 1 / 10 ^ 15) < 1"
    by (simp_all add: clip_def min_def max_def)
  then show ?thesis by simp
qed

lemma weighted_sum_nonpos:
  fixes y :: "real list"
  assumes "length y = length p" and "\<forall>v \<in> set y. v = 0 \<or> v = 1" and "\<And>v. g v < 0"
  shows "sum_list (map2 (\<lambda>a b. a * g b) y p) \<le> 0"
  using assms(1,2)
proof (induction y p rule: list_induct2)
  case Nil
  then show ?case by simp
next
  case (Cons a y b p)
  have "a * g b \<le> 0" using Cons.prems assms(3) [of b] by auto
  moreover have "sum_list (map2 (\<lambda>a b. a * g b) y p) \<le> 0" using Cons by simp
  ultimately show ?case by simp
qed

lemma weighted_sum_neg:
  fixes y :: "real list"
  assumes "length y = length p" and "\<forall>v \<in> set y. v = 0 \<or> v = 1" and "1 \<in> set y"
    and "\<And>v. g v < 0"
  shows "sum_list (map2 (\<lambda>a b. a * g b) y p) < 0"
  using assms(1,2,3)
proof (induction y p rule: list_induct2)
  case Nil
  then show ?case by simp
next
  case (Cons a y b p)
  have rest: "sum_list (map2 (\<lambda>a b. a * g b) y p) \<le> 0"
    using Cons.hyps Cons.prems(1) assms(4) by (intro weighted_sum_nonpos) auto
  show ?case
  proof (cases "a = 1")
    case True
    then show ?thesis using rest assms(4) [of b] by simp
  next
    case False
    then have "a = 0" "1 \<in> set y" using Cons.prems by auto
    then show ?thesis using Cons by simp
  qed
qed

lemma one_hot_has_one: "one_hot l \<Longrightarrow> 1 \<in> set l"
proof -
  assume "one_hot l"
  then have "filter (\<lambda>v. v = 1) l \<noteq> []" by (auto simp: one_hot_def)
  then obtain v where "v \<in> set (filter (\<lambda>v. v = 1) l)" by (cases "filter (\<lambda>v. v = 1) l") auto
  then show ?thesis by auto
qed

lemma row_loss_positive:
  fixes y :: "real list"
  assumes "length p = length y" and "one_hot y"
  shows "0 < - sum_list (map2 (\<lambda>label prediction.
         label * ln (clip prediction (1 / 10 ^ 15) (1 - 1 / 10 ^ 15))) y p)"
proof -
  have "sum_list (map2 (\<lambda>a b. a * ln (clip b (1 / 10 ^ 15) (1 - 1 / 10 ^ 15))) y p) < 0"
    using assms one_hot_has_one [OF assms(2)]
    by (intro weighted_sum_neg clipped_log_negative) (auto simp: one_hot_def)
  then show ?thesis by simp
qed

lemma sum_list_pos_nonempty:
  fixes xs :: "real list"
  assumes "xs \<noteq> []" and "\<forall>x \<in> set xs. 0 < x"
  shows "0 < sum_list xs"
  using assms by (induction xs) (auto intro: add_pos_nonneg sum_list_nonneg less_imp_le)

lemma loss_rows:
  assumes "length P = length Y"
  shows "sum_list (map sum_list (map2 (map2 (*)) Y (map (map (\<lambda>v. ln (h v))) P)))
    = - sum_list (map2 (\<lambda>p y. - sum_list (map2 (\<lambda>a b. a * ln (h b)) y p)) P (Y :: real list list))"
  using assms
proof (induction P Y rule: list_induct2)
  case Nil
  then show ?case by simp
next
  case (Cons p P y Y)
  have "map2 (*) y (map (\<lambda>v. ln (h v)) p) = map2 (\<lambda>a b. a * ln (h b)) y p"
    by (simp add: zip_map2 case_prod_beta)
  then show ?case using Cons by simp
qed

lemma zip_swap_shape:
  assumes "\<forall>(p, y) \<in> set (zip P Y). length p = length y"
  shows "\<forall>(r, s) \<in> set (zip Y (map (map f) (map (map g) P))). length r = length s"
proof -
  have "length (Y ! i) = length (P ! i)" if "i < length P" "i < length Y" for i
  proof -
    have "(P ! i, Y ! i) \<in> set (zip P Y)" using that by (auto simp: set_zip)
    then show ?thesis using assms by auto
  qed
  then show ?thesis by (auto simp: set_zip)
qed

text \<open>
  Claim C3, amended. For every prediction batch with at least one sample and every
  one-hot label batch of the same shape, \<open>compute_loss\<close> clips each prediction to
  the interval from \<open>1e-15\<close> to \<open>1 - 1e-15\<close> before the logarithm and returns the batch
  mean of \<open>- sum (label * log prediction)\<close>; this value is positive, so it is
  non-negative and never 0.
\<close>

theorem loss_is_positive_cross_entropy:
  assumes "predictions \<noteq> []"
    and "length predictions = length labels"
    and "\<forall>(p, y) \<in> set (zip predictions labels). length p = length y"
    and "\<forall>y \<in> set labels. one_hot y"
  shows "compute_loss predictions labels = Inr (cross_entropy_mean predictions labels)
    \<and> 0 < cross_entropy_mean predictions labels"
proof -
  let ?h = "\<lambda>v. clip v (1 / 10 ^ 15) (1 - 1 / 10 ^ 15)"
  let ?P = "map (map ?h) predictions"
  have shape: "\<forall>(r, s) \<in> set (zip labels (map (map ln) ?P)). length r = length s"
    using assms(3) by (rule zip_swap_shape)
  have t: "mat_op (*) labels (map (map ln) ?P) = Inr (map2 (map2 (*)) labels (map (map ln) ?P))"
    using assms(2) shape by (intro mat_op_Inr) simp_all
  have ne: "map sum_list (map2 (map2 (*)) labels (map (map ln) ?P)) \<noteq> []"
    using assms(1,2) by (cases predictions; cases labels) simp_all
  have len: "length (map sum_list (map2 (map2 (*)) labels (map (map ln) ?P))) = length predictions"
    using assms(2) by simp
  have rows: "sum_list (map sum_list (map2 (map2 (*)) labels (map (map ln) ?P)))
    = - sum_list (map2 (\<lambda>p y. - sum_list (map2 (\<lambda>a b. a * ln (?h b)) y p)) predictions labels)"
    using loss_rows [OF assms(2), of ?h] by (simp add: comp_def)
  have "compute_loss predictions labels
    = Inr (- (sum_list (map sum_list (map2 (map2 (*)) labels (map (map ln) ?P)))
        / real (length predictions)))"
    unfolding compute_loss_def Let_def t bnd_Inr np_mean_def using ne len by simp
  then have eq: "compute_loss predictions labels = Inr (cross_entropy_mean predictions labels)"
    unfolding rows cross_entropy_mean_def by simp
  have "\<forall>x \<in> set (map2 (\<lambda>p y. - sum_list (map2 (\<lambda>a b. a * ln (?h b)) y p)) predictions labels). 0 < x"
  proof
    fix x assume "x \<in> set (map2 (\<lambda>p y. - sum_list (map2 (\<lambda>a b. a * ln (?h b)) y p)) predictions labels)"
    then obtain p y where py: "(p, y) \<in> set (zip predictions labels)"
      and x: "x = - sum_list (map2 (\<lambda>a b. a * ln (?h b)) y p)" by auto
    have "length p = length y" using assms(3) py by auto
    moreover have "one_hot y" using assms(4) py by (auto dest: set_zip_rightD)
    ultimately show "0 < x" unfolding x by (rule row_loss_positive)
  qed
  moreover have "map2 (\<lambda>p y. - sum_list (map2 (\<lambda>a b. a * ln (?h b)) y p)) predictions labels \<noteq> []"
    using assms(1,2) by (cases predictions; cases labels) simp_all
  ultimately have "0 < sum_list (map2 (\<lambda>p y. - sum_list (map2 (\<lambda>a b. a * ln (?h b)) y p)) predictions labels)"
    by (intro sum_list_pos_nonempty) 
  moreover have "0 < real (length predictions)" using assms(1) by simp
  ultimately have "0 < cross_entropy_mean predictions labels"
    unfolding cross_entropy_mean_def by (rule divide_pos_pos)
  with eq show ?thesis by simp
qed

theorem loss_is_positive_cross_entropy_witness:
  "compute_loss [[1 / 2, 1 / 2]] [[1, 0]] = Inr (- ln (1 / 2)) \<and> one_hot [1, 0 :: real]
   \<and> 0 < cross_entropy_mean [[1 / 2, 1 / 2]] [[1, 0]]"
  using loss_is_positive_cross_entropy [of "[[1 / 2, 1 / 2]]" "[[1, 0]]"]
  by (simp add: one_hot_def cross_entropy_mean_def clip_def)

text \<open>
  As stated, C3 fails on the batch with no sample, which \<open>train\<close> passes when the
  training subset is empty: the mean of an empty array is \<^verbatim>\<open>nan\<close>, not a non-negative
  number.
\<close>

theorem loss_empty_batch_counterexample:
  "compute_loss [] [] = Inl NotFinite"
  by (simp add: compute_loss_def mat_op_def np_mean_def)

subsection \<open>Matrices given by their entries\<close>

lemma has_shape_mk_matrix [simp]: "has_shape (mk_matrix m n f) m n"
  by (auto simp: has_shape_def mk_matrix_def)

lemma length_mk_matrix [simp]: "length (mk_matrix m n f) = m"
  by (simp add: mk_matrix_def)

lemma length_mk_vec [simp]: "length (mk_vec n f) = n"
  by (simp add: mk_vec_def)

lemma nth_mk_vec [simp]: "j < n \<Longrightarrow> mk_vec n f ! j = f j"
  by (simp add: mk_vec_def)

lemma nth_mk_matrix_row: "i < m \<Longrightarrow> mk_matrix m n f ! i = mk_vec n (f i)"
  by (simp add: mk_matrix_def mk_vec_def)

lemma nth_mk_matrix [simp]: "i < m \<Longrightarrow> j < n \<Longrightarrow> mk_matrix m n f ! i ! j = f i j"
  by (simp add: mk_matrix_def)

lemma mk_matrix_rows: "mk_matrix m n f = map (\<lambda>i. mk_vec n (f i)) [0..<m]"
  by (simp add: mk_matrix_def mk_vec_def)

lemma mk_vec_cong: "(\<And>j. j < n \<Longrightarrow> f j = g j) \<Longrightarrow> mk_vec n f = mk_vec n g"
  by (simp add: mk_vec_def)

lemma mk_matrix_cong:
  "(\<And>i j. i < m \<Longrightarrow> j < n \<Longrightarrow> f i j = g i j) \<Longrightarrow> mk_matrix m n f = mk_matrix m n g"
  by (simp add: mk_matrix_def)

lemma vec_as_mk_vec: "u = mk_vec (length u) (\<lambda>j. u ! j)"
  by (simp add: mk_vec_def map_nth)

lemma matrix_as_mk_matrix:
  assumes "has_shape A m n"
  shows "A = mk_matrix m n (\<lambda>i j. A ! i ! j)"
proof (rule nth_equalityI)
  show "length A = length (mk_matrix m n (\<lambda>i j. A ! i ! j))"
    using assms by (simp add: has_shape_def)
next
  fix i assume "i < length A"
  then have i: "i < m" and len: "length (A ! i) = n"
    using assms by (auto simp: has_shape_def)
  have "A ! i = map (\<lambda>j. A ! i ! j) [0..<n]"
    using map_nth [of "A ! i"] len by simp
  then show "A ! i = mk_matrix m n (\<lambda>i j. A ! i ! j) ! i"
    using i by (simp add: mk_matrix_def)
qed

lemma ncols_mk_matrix: "0 < m \<Longrightarrow> ncols (mk_matrix m n f) = n"
  by (cases m) (simp_all add: ncols_def mk_matrix_def upt_rec [of 0])

lemma transpose_mk_matrix:
  assumes "0 < m"
  shows "transpose_np (mk_matrix m n f) = mk_matrix n m (\<lambda>j i. f i j)"
proof -
  have "map (\<lambda>r. r ! j) (mk_matrix m n f) = map (\<lambda>i. f i j) [0..<m]" if "j < n" for j
    using that by (simp add: mk_matrix_def)
  then show ?thesis
    by (simp add: transpose_np_def ncols_mk_matrix [OF assms] mk_matrix_def [of n m])
qed

lemma sum_list_map_upt: "sum_list (map f [0..<k]) = (\<Sum>l<k. (f l :: real))"
  by (simp add: interv_sum_list_conv_sum_set_nat atLeast0LessThan)

lemma vdot_mk_vec: "vdot (mk_vec k f) (mk_vec k g) = (\<Sum>l<k. f l * g l)"
proof -
  have "zip (map f [0..<k]) (map g [0..<k]) = map (\<lambda>l. (f l, g l)) [0..<k]"
    by (simp add: zip_map_map zip_same_conv_map)
  then show ?thesis
    by (simp add: vdot_def mk_vec_def comp_def sum_list_map_upt)
qed

lemma dot_mk_matrix:
  assumes "0 < k"
  shows "dot (mk_matrix m k f) (mk_matrix k n g) = Inr (mk_matrix m n (\<lambda>i j. \<Sum>l<k. f i l * g l j))"
proof -
  have rows: "\<forall>r \<in> set (mk_matrix m k f). length r = length (mk_matrix k n g)"
    by (auto simp: mk_matrix_def)
  have "map (\<lambda>r. map (vdot r) (transpose_np (mk_matrix k n g))) (mk_matrix m k f)
      = mk_matrix m n (\<lambda>i j. \<Sum>l<k. f i l * g l j)"
    unfolding transpose_mk_matrix [OF assms]
    unfolding mk_matrix_rows [of m k] mk_matrix_rows [of n k] mk_matrix_def [of m n]
    by (simp add: comp_def vdot_mk_vec)
  then show ?thesis using rows by (simp add: dot_def)
qed

lemma map2_mk_vec: "map2 h (mk_vec n f) (mk_vec n g) = mk_vec n (\<lambda>j. h (f j) (g j))"
proof -
  have "zip (map f [0..<n]) (map g [0..<n]) = map (\<lambda>l. (f l, g l)) [0..<n]"
    by (simp add: zip_map_map zip_same_conv_map)
  then show ?thesis by (simp add: mk_vec_def comp_def)
qed

lemma vec_op_mk_vec: "vec_op h (mk_vec n f) (mk_vec n g) = Inr (mk_vec n (\<lambda>j. h (f j) (g j)))"
  by (simp add: vec_op_def map2_mk_vec)

lemma mat_op_mk_matrix:
  "mat_op h (mk_matrix m n f) (mk_matrix m n g) = Inr (mk_matrix m n (\<lambda>i j. h (f i j) (g i j)))"
proof -
  have z: "zip (mk_matrix m n f) (mk_matrix m n g) = map (\<lambda>i. (mk_vec n (f i), mk_vec n (g i))) [0..<m]"
    by (simp add: mk_matrix_rows zip_map_map zip_same_conv_map)
  have "map_e (\<lambda>(r, s). vec_op h r s) (zip (mk_matrix m n f) (mk_matrix m n g))
      = Inr (map (\<lambda>(r, s). map2 h r s) (zip (mk_matrix m n f) (mk_matrix m n g)))"
    unfolding z by (rule map_e_Inr) (auto simp: vec_op_mk_vec map2_mk_vec)
  also have "map (\<lambda>(r, s). map2 h r s) (zip (mk_matrix m n f) (mk_matrix m n g))
      = mk_matrix m n (\<lambda>i j. h (f i j) (g i j))"
    unfolding z by (simp add: comp_def map2_mk_vec mk_matrix_rows)
  finally show ?thesis by (simp add: mat_op_def)
qed

lemma add_bias_mk_matrix:
  "add_bias (mk_matrix m n f) (mk_vec n g) = Inr (mk_matrix m n (\<lambda>i j. f i j + g j))"
proof -
  have "map_e (\<lambda>r. vec_op (+) r (mk_vec n g)) (map (\<lambda>i. mk_vec n (f i)) [0..<m])
      = Inr (map (\<lambda>r. map2 (+) r (mk_vec n g)) (map (\<lambda>i. mk_vec n (f i)) [0..<m]))"
    by (rule map_e_Inr) (auto simp: vec_op_mk_vec map2_mk_vec)
  then show ?thesis
    by (simp add: add_bias_def mk_matrix_rows comp_def map2_mk_vec)
qed

lemma sum_axis0_mk_matrix:
  assumes "0 < m"
  shows "sum_axis0 (mk_matrix m n f) = mk_vec n (\<lambda>j. \<Sum>i<m. f i j)"
  unfolding sum_axis0_def transpose_mk_matrix [OF assms]
  by (simp add: mk_matrix_def mk_vec_def comp_def sum_list_map_upt)

lemma mat_div_mk_matrix:
  "0 < c \<Longrightarrow> mat_div (mk_matrix m n f) c = Inr (mk_matrix m n (\<lambda>i j. f i j / real c))"
  by (simp add: mat_div_def mk_matrix_def comp_def)

lemma vec_div_mk_vec: "0 < c \<Longrightarrow> vec_div (mk_vec n f) c = Inr (mk_vec n (\<lambda>j. f j / real c))"
  by (simp add: vec_div_def mk_vec_def comp_def)

lemma scale_mat_mk_matrix: "scale_mat c (mk_matrix m n f) = mk_matrix m n (\<lambda>i j. c * f i j)"
  by (simp add: scale_mat_def mk_matrix_def comp_def)

lemma scale_vec_mk_vec: "scale_vec c (mk_vec n f) = mk_vec n (\<lambda>j. c * f j)"
  by (simp add: scale_vec_def mk_vec_def comp_def)

lemma relu_mk_matrix: "relu (mk_matrix m n f) = mk_matrix m n (\<lambda>i j. max 0 (f i j))"
  by (simp add: relu_def mk_matrix_def comp_def)

lemma relu_derivative_mk_matrix:
  "relu_derivative (mk_matrix m n f) = mk_matrix m n (\<lambda>i j. if f i j > 0 then 1 else 0)"
  by (simp add: relu_derivative_def mk_matrix_def comp_def)

subsection \<open>The forward and the backward pass\<close>

lemma forward_shapes:
  assumes wf: "well_formed s" and x: "has_shape x m (input_size s)"
  shows "\<exists>Z2 A2. forward s x = Inr (s\<lparr>z1 := Some (hidden_pre_activation s x),
         a1 := Some (relu (hidden_pre_activation s x)), z2 := Some Z2, a2 := Some A2\<rparr>, A2)
     \<and> has_shape Z2 m (output_size s) \<and> has_shape A2 m (output_size s)"
proof -
  obtain xf where xf: "x = mk_matrix m (input_size s) xf"
    using matrix_as_mk_matrix [OF x] by blast
  obtain w1 where w1: "W1 s = mk_matrix (input_size s) (hidden_size s) w1"
    using wf matrix_as_mk_matrix [of "W1 s"] by (auto simp: well_formed_def)
  obtain w2 where w2: "W2 s = mk_matrix (hidden_size s) (output_size s) w2"
    using wf matrix_as_mk_matrix [of "W2 s"] by (auto simp: well_formed_def)
  obtain v1 where v1: "b1 s = mk_vec (hidden_size s) v1"
    using wf vec_as_mk_vec [of "b1 s"] by (auto simp: well_formed_def)
  obtain v2 where v2: "b2 s = mk_vec (output_size s) v2"
    using wf vec_as_mk_vec [of "b2 s"] by (auto simp: well_formed_def)
  have pos: "0 < input_size s" "0 < hidden_size s" "0 < output_size s"
    using wf by (auto simp: well_formed_def)
  let ?Z1 = "mk_matrix m (hidden_size s) (\<lambda>i j. (\<Sum>l<input_size s. xf i l * w1 l j) + v1 j)"
  let ?Z2 = "mk_matrix m (output_size s)
     (\<lambda>i j. (\<Sum>l<hidden_size s. max 0 ((\<Sum>p<input_size s. xf i p * w1 p l) + v1 l) * w2 l j) + v2 j)"
  obtain A2 where A2: "softmax ?Z2 = Inr A2" "has_shape A2 m (output_size s)"
    using softmax_shape [OF has_shape_mk_matrix pos(3)] by blast
  have "forward s x = Inr (s\<lparr>z1 := Some ?Z1, a1 := Some (relu ?Z1), z2 := Some ?Z2, a2 := Some A2\<rparr>, A2)"
    unfolding forward_def xf w1 w2 v1 v2
    by (simp add: dot_mk_matrix add_bias_mk_matrix relu_mk_matrix A2(1) pos Let_def)
  moreover have "hidden_pre_activation s x = ?Z1"
    unfolding hidden_pre_activation_def xf w1 v1
    by (simp, rule mk_matrix_cong) (simp cong: sum.cong_simp)
  ultimately show ?thesis
    using A2(2) by (intro exI [of _ ?Z2] exI [of _ A2]) simp
qed


lemma backward_explicit:
  assumes wf: "well_formed s"
    and x: "has_shape x m (input_size s)" and y: "has_shape y m (output_size s)"
    and m: "0 < m"
    and cache: "z1 s = Some Z1" "a1 s = Some A1" "a2 s = Some A2"
    and shapes: "has_shape Z1 m (hidden_size s)" "has_shape A1 m (hidden_size s)"
      "has_shape A2 m (output_size s)"
  shows "backward s x y lr = Inr (gradient_descent_step s x y lr Z1 A1 A2)"
proof -
  obtain xf where xf: "x = mk_matrix m (input_size s) xf"
    using matrix_as_mk_matrix [OF x] by blast
  obtain yf where yf: "y = mk_matrix m (output_size s) yf"
    using matrix_as_mk_matrix [OF y] by blast
  obtain zf where zf: "Z1 = mk_matrix m (hidden_size s) zf"
    using matrix_as_mk_matrix [OF shapes(1)] by blast
  obtain af where af: "A1 = mk_matrix m (hidden_size s) af"
    using matrix_as_mk_matrix [OF shapes(2)] by blast
  obtain pf where pf: "A2 = mk_matrix m (output_size s) pf"
    using matrix_as_mk_matrix [OF shapes(3)] by blast
  obtain w1 where w1: "W1 s = mk_matrix (input_size s) (hidden_size s) w1"
    using wf matrix_as_mk_matrix [of "W1 s"] by (auto simp: well_formed_def)
  obtain w2 where w2: "W2 s = mk_matrix (hidden_size s) (output_size s) w2"
    using wf matrix_as_mk_matrix [of "W2 s"] by (auto simp: well_formed_def)
  obtain v1 where v1: "b1 s = mk_vec (hidden_size s) v1"
    using wf vec_as_mk_vec [of "b1 s"] by (auto simp: well_formed_def)
  obtain v2 where v2: "b2 s = mk_vec (output_size s) v2"
    using wf vec_as_mk_vec [of "b2 s"] by (auto simp: well_formed_def)
  have pos: "0 < input_size s" "0 < hidden_size s" "0 < output_size s"
    using wf by (auto simp: well_formed_def)
  let ?dz2 = "\<lambda>k j. pf k j - yf k j"
  let ?dz1 = "\<lambda>k i. (\<Sum>j<output_size s. ?dz2 k j * w2 i j) * (if zf k i > 0 then 1 else 0)"
  let ?W2 = "mk_matrix (hidden_size s) (output_size s)
     (\<lambda>i j. w2 i j - lr * ((\<Sum>k<m. af k i * ?dz2 k j) / real m))"
  let ?b2 = "mk_vec (output_size s) (\<lambda>j. v2 j - lr * ((\<Sum>k<m. ?dz2 k j) / real m))"
  let ?W1 = "mk_matrix (input_size s) (hidden_size s)
     (\<lambda>p i. w1 p i - lr * ((\<Sum>k<m. xf k p * ?dz1 k i) / real m))"
  let ?b1 = "mk_vec (hidden_size s) (\<lambda>i. v1 i - lr * ((\<Sum>k<m. ?dz1 k i) / real m))"
  have run: "backward s x y lr = Inr (s\<lparr>W2 := ?W2, b2 := ?b2, W1 := ?W1, b1 := ?b1\<rparr>)"
    unfolding backward_def cache cached_def w1 w2 v1 v2
    unfolding xf yf zf af pf
    by (simp add: Let_def m pos mat_op_mk_matrix transpose_mk_matrix dot_mk_matrix
        mat_div_mk_matrix vec_div_mk_vec sum_axis0_mk_matrix relu_derivative_mk_matrix
        scale_mat_mk_matrix scale_vec_mk_vec vec_op_mk_vec)
  have e1: "mk_matrix (hidden_size s) (output_size s)
      (\<lambda>i j. W2 s ! i ! j - lr * ((\<Sum>k<m. A1 ! k ! i * (A2 ! k ! j - y ! k ! j)) / real m)) = ?W2"
    unfolding w2 af pf yf by (rule mk_matrix_cong) (simp cong: sum.cong_simp)
  have e2: "mk_vec (output_size s)
      (\<lambda>j. b2 s ! j - lr * ((\<Sum>k<m. A2 ! k ! j - y ! k ! j) / real m)) = ?b2"
    unfolding v2 pf yf by (rule mk_vec_cong) (simp cong: sum.cong_simp)
  have e3: "mk_matrix (input_size s) (hidden_size s)
      (\<lambda>p i. W1 s ! p ! i - lr * ((\<Sum>k<m. x ! k ! p *
         ((\<Sum>j<output_size s. (A2 ! k ! j - y ! k ! j) * W2 s ! i ! j)
            * (if Z1 ! k ! i > 0 then 1 else 0))) / real m)) = ?W1"
    unfolding w1 w2 xf zf pf yf by (rule mk_matrix_cong) (simp cong: sum.cong_simp)
  have e4: "mk_vec (hidden_size s)
      (\<lambda>i. b1 s ! i - lr * ((\<Sum>k<m.
         ((\<Sum>j<output_size s. (A2 ! k ! j - y ! k ! j) * W2 s ! i ! j)
            * (if Z1 ! k ! i > 0 then 1 else 0))) / real m)) = ?b1"
    unfolding v1 w2 zf pf yf by (rule mk_vec_cong) (simp cong: sum.cong_simp)
  have len: "length x = m" using x by (simp add: has_shape_def)
  have "gradient_descent_step s x y lr Z1 A1 A2 = s\<lparr>W2 := ?W2, b2 := ?b2, W1 := ?W1, b1 := ?b1\<rparr>"
    unfolding gradient_descent_step_def Let_def len e1 e2 e3 e4 ..
  with run show ?thesis by simp
qed

lemma has_shape_hidden_pre_activation:
  "has_shape (hidden_pre_activation s x) (length x) (hidden_size s)"
  by (simp add: hidden_pre_activation_def)

lemma has_shape_relu: "has_shape A m n \<Longrightarrow> has_shape (relu A) m n"
  by (auto simp: has_shape_def relu_def)

lemma well_formed_cache_update:
  "well_formed (s\<lparr>z1 := a, a1 := b, z2 := c, a2 := d\<rparr>) = well_formed s"
  by (simp add: well_formed_def)

lemma backward_empty_batch:
  assumes "a2 s = Some []" and "a1 s = Some []"
  shows "backward s [] [] lr = Inl NotFinite"
  using assms
  by (simp add: backward_def cached_def mat_op_def transpose_np_def ncols_def dot_def mat_div_def)

lemma lessThan_1: "{..<(1::nat)} = {0}" by auto
lemma lessThan_2: "{..<(2::nat)} = {0, 1}" by auto

lemma backward_after_forward:
  assumes "well_formed s0"
    and "has_shape X m (input_size s0)" and "has_shape Y m (output_size s0)"
    and "forward s0 X = Inr (s, A2)"
  shows "z1 s = Some (hidden_pre_activation s0 X)
    \<and> a1 s = Some (relu (hidden_pre_activation s0 X))
    \<and> a2 s = Some A2
    \<and> backward s X Y learning_rate =
        (if m = 0 then Inl NotFinite
         else Inr (gradient_descent_step s X Y learning_rate
                (hidden_pre_activation s0 X) (relu (hidden_pre_activation s0 X)) A2))"
proof -
  let ?Z1 = "hidden_pre_activation s0 X"
  have len: "length X = m" using assms(2) by (simp add: has_shape_def)
  obtain Z2 where s: "s = s0\<lparr>z1 := Some ?Z1, a1 := Some (relu ?Z1), z2 := Some Z2, a2 := Some A2\<rparr>"
    and A2: "has_shape A2 m (output_size s0)"
    using forward_shapes [OF assms(1,2)] assms(4) by auto
  have wf: "well_formed s" unfolding s well_formed_cache_update by (rule assms(1))
  have cache: "z1 s = Some ?Z1" "a1 s = Some (relu ?Z1)" "a2 s = Some A2"
    by (simp_all add: s)
  have sizes: "input_size s = input_size s0" "hidden_size s = hidden_size s0"
    "output_size s = output_size s0"
    by (simp_all add: s)
  have Z1: "has_shape ?Z1 m (hidden_size s)"
    using has_shape_hidden_pre_activation [of s0 X] by (simp add: len sizes)
  show ?thesis
  proof (cases "m = 0")
    case True
    then have "X = []" "Y = []" "A2 = []"
      using assms(2,3) A2 by (simp_all add: has_shape_def)
    moreover have "relu ?Z1 = []"
      using Z1 True by (simp add: has_shape_def relu_def)
    ultimately have "backward s X Y learning_rate = Inl NotFinite"
      using cache by (simp add: backward_empty_batch)
    with cache True show ?thesis by simp
  next
    case False
    then have "0 < m" by simp
    then have "backward s X Y learning_rate
        = Inr (gradient_descent_step s X Y learning_rate ?Z1 (relu ?Z1) A2)"
      using wf assms(2,3) cache Z1 has_shape_relu [OF Z1] A2
      by (intro backward_explicit) (simp_all add: sizes)
    with cache False show ?thesis by simp
  qed
qed

text \<open>
  Claim C1. Let \<open>forward\<close> have just been called on the batch \<open>X\<close> of \<open>m\<close> samples,
  and let \<open>Y\<close> be a label batch of the same number of rows and of the width of the
  output layer. Then \<open>backward\<close> reads the activations that this call cached and
  performs exactly one plain gradient-descent step: the gradient at the output layer
  is \<open>A2 - Y\<close>, the gradient at the hidden layer is gated by the derivative of ReLU
  (1 where \<open>Z1 > 0\<close>, else 0), the gradients of \<open>W1\<close>, \<open>b1\<close>, \<open>W2\<close>, \<open>b2\<close> are
  averaged over the batch, and each parameter becomes itself minus the learning rate
  times its averaged gradient. On the batch with no sample the average is a division
  by zero and the result is \<^verbatim>\<open>nan\<close>.
\<close>

theorem backward_is_gradient_descent_step:
  assumes "well_formed s0"
    and "has_shape X m (input_size s0)" and "has_shape Y m (output_size s0)"
    and "forward s0 X = Inr (s, A2)"
  shows "z1 s = Some (hidden_pre_activation s0 X)
    \<and> a1 s = Some (relu (hidden_pre_activation s0 X))
    \<and> a2 s = Some A2
    \<and> backward s X Y learning_rate =
        (if m = 0 then Inl NotFinite
         else Inr (gradient_descent_step s X Y learning_rate
                (hidden_pre_activation s0 X) (relu (hidden_pre_activation s0 X)) A2))"
  using assms by (rule backward_after_forward)

theorem backward_is_gradient_descent_step_witness:
  "forward tiny_model [[1]] = Inr (tiny_model_run, [[1 / 2, 1 / 2]])
   \<and> backward tiny_model_run [[1]] [[1, 0]] (1 / 10)
       = Inr (tiny_model_run\<lparr>W2 := [[1 / 20, - 1 / 20]], b2 := [1 / 20, - 1 / 20],
                W1 := [[1]], b1 := [0]\<rparr>)"
proof -
  have f: "forward tiny_model [[1]] = Inr (tiny_model_run, [[1 / 2, 1 / 2]])"
    by (simp add: forward_def tiny_model_def tiny_model_run_def dot_def transpose_np_def ncols_def
        vdot_def add_bias_def vec_op_def relu_def softmax_def softmax_row_def np_max_def upt_rec
        Let_def)
  have wf: "well_formed tiny_model"
    by (simp add: well_formed_def tiny_model_def has_shape_def)
  have g: "gradient_descent_step tiny_model_run [[1]] [[1, 0]] (1 / 10)
        (hidden_pre_activation tiny_model [[1]]) (relu (hidden_pre_activation tiny_model [[1]]))
        [[1 / 2, 1 / 2]]
      = tiny_model_run\<lparr>W2 := [[1 / 20, - 1 / 20]], b2 := [1 / 20, - 1 / 20], W1 := [[1]], b1 := [0]\<rparr>"
    by (simp add: gradient_descent_step_def hidden_pre_activation_def relu_def mk_matrix_def
        mk_vec_def tiny_model_def tiny_model_run_def upt_rec lessThan_1 lessThan_2 Let_def)
  show ?thesis
    using backward_is_gradient_descent_step [OF wf, of "[[1]]" 1 "[[1, 0]]" tiny_model_run
        "[[1 / 2, 1 / 2]]" "1 / 10"] f g
    by (simp add: has_shape_def tiny_model_def)
qed

subsection \<open>The division by the batch size\<close>

lemma split_index_zero_iff: "split_index n = 0 \<longleftrightarrow> n \<le> 1"
  unfolding split_index_div by presburger

lemma forward_empty_batch:
  "forward s [] = Inr (s\<lparr>z1 := Some [], a1 := Some [], z2 := Some [], a2 := Some []\<rparr>, [])"
  by (simp add: forward_def dot_def add_bias_def relu_def softmax_def)

lemma train_epoch_empty_subset:
  assumes "perm k = []"
  shows "train_epoch perm [] [] X_test y_test lr k s = Inl NotFinite"
proof -
  have "metric (compute_loss [] []) = Inr None"
    by (simp add: metric_def compute_loss_def mat_op_def np_mean_def)
  moreover have "metric (accuracy [] []) = Inr None"
    by (simp add: metric_def accuracy_def np_mean_def)
  ultimately show ?thesis
    using assms
    by (simp add: train_epoch_def take_rows_def forward_empty_batch backward_empty_batch)
qed

lemma train_epochs_empty_subset:
  assumes "\<forall>e. perm e = []"
  shows "train_epochs perm [] [] X_test y_test lr (Suc k) s = Inl NotFinite"
proof (induction k)
  case 0
  show ?case using assms by (simp add: train_epoch_empty_subset)
next
  case (Suc k)
  then show ?case by simp
qed

lemma finite_matrix_error: "finite_matrix X = Inl e \<Longrightarrow> e = NotFinite"
proof -
  have row: "map_e finite_value r = Inl e \<Longrightarrow> e = NotFinite" for r e
    by (induction r arbitrary: e)
       (auto simp: finite_value_def bnd_def split: npfloat.splits sum.splits)
  have "map_e (map_e finite_value) X = Inl e \<Longrightarrow> e = NotFinite" for e
    using row by (induction X arbitrary: e) (auto simp: bnd_def split: sum.splits)
  then show "finite_matrix X = Inl e \<Longrightarrow> e = NotFinite"
    by (simp add: finite_matrix_def)
qed

lemma map_e_length: "map_e f xs = Inr ys \<Longrightarrow> length ys = length xs"
  by (induction xs arbitrary: ys) (auto simp: bnd_def split: sum.splits)

lemma train_one_sample:
  assumes "\<forall>e. permutation rng e = []"
  shows "train (Suc k) 1 lr rng dumps path files = Inl NotFinite"
proof (cases "finite_matrix (fst (generate_training_data 1 (sample_rng rng)))")
  case (Inl e)
  then have "e = NotFinite" by (rule finite_matrix_error)
  with Inl show ?thesis
    by (simp add: train_def case_prod_beta Let_def del: generate_training_data.simps)
next
  case (Inr X)
  then have "length X = length (fst (generate_training_data 1 (sample_rng rng)))"
    unfolding finite_matrix_def by (rule map_e_length)
  then have "length X = 1"
    by (simp add: generate_fst del: generate_training_data.simps)
  then have sp: "split_data X y = ([], X, [], y)" for y :: "real list list"
    by (simp add: split_data_def Let_def split_index_div)
  have init: "\<exists>s. init_predictor 4 16 3 (randn_W1 rng) (randn_W2 rng) = Inr s"
    by (simp add: init_predictor_def)
  show ?thesis
    using Inr init assms
    by (auto simp add: train_def case_prod_beta Let_def sp train_epochs_empty_subset
        simp del: generate_training_data.simps train_epochs.simps)
qed

text \<open>
  Claim C10. \<open>backward\<close> divides the gradient sums by the batch size \<open>m\<close>: after a
  forward pass on a well-shaped batch its result is \<^verbatim>\<open>nan\<close> exactly when \<open>m = 0\<close>, and
  a model exactly when \<open>m\<close> is positive. The training subset has
  \<open>\<lfloor>0.8 * sample_count\<rfloor>\<close> samples, which is 0 exactly for a sample count of at
  most 1. With one sample the training subset is empty, every epoch's \<open>backward\<close>
  divides by zero, and a run of at least one epoch ends in \<^verbatim>\<open>nan\<close> parameters, although
  a sample count of 1 is a positive integer.
\<close>

theorem training_divides_by_batch_size:
  assumes "well_formed s0"
    and "has_shape X m (input_size s0)" and "has_shape Y m (output_size s0)"
    and "forward s0 X = Inr (s, A2)"
  shows "(backward s X Y learning_rate = Inl NotFinite \<longleftrightarrow> m = 0)
    \<and> ((\<exists>s'. backward s X Y learning_rate = Inr s') \<longleftrightarrow> 0 < m)
    \<and> (split_index n = 0 \<longleftrightarrow> n \<le> 1)
    \<and> fst (split_data [x1] [y1]) = []
    \<and> ((\<forall>e. perm e = []) \<longrightarrow>
          train_epochs perm [] [] X_test y_test learning_rate (Suc k) s1 = Inl NotFinite)
    \<and> ((\<forall>e. permutation rng e = []) \<longrightarrow>
          train (Suc k) 1 learning_rate rng dumps path files = Inl NotFinite)"
proof -
  have "backward s X Y learning_rate =
        (if m = 0 then Inl NotFinite
         else Inr (gradient_descent_step s X Y learning_rate
                (hidden_pre_activation s0 X) (relu (hidden_pre_activation s0 X)) A2))"
    using backward_after_forward [OF assms] by simp
  then have "(backward s X Y learning_rate = Inl NotFinite \<longleftrightarrow> m = 0)
    \<and> ((\<exists>s'. backward s X Y learning_rate = Inr s') \<longleftrightarrow> 0 < m)"
    by (cases "m = 0") simp_all
  moreover have "fst (split_data [x1] [y1]) = []"
    by (simp add: split_data_def Let_def split_index_div)
  ultimately show ?thesis
    using split_index_zero_iff train_one_sample train_epochs_empty_subset by blast
qed

theorem training_divides_by_batch_size_witness:
  "forward tiny_model [] = Inr (tiny_model\<lparr>z1 := Some [], a1 := Some [], z2 := Some [], a2 := Some []\<rparr>, [])
   \<and> backward (tiny_model\<lparr>z1 := Some [], a1 := Some [], z2 := Some [], a2 := Some []\<rparr>) [] [] (1 / 100)
        = Inl NotFinite
   \<and> split_index 1 = 0
   \<and> train 1 1 (1 / 100) quiet_rng (\<lambda>d. []) ''weights.json'' Map.empty = Inl NotFinite"
proof -
  have wf: "well_formed tiny_model"
    by (simp add: well_formed_def tiny_model_def has_shape_def)
  have f: "forward tiny_model [] = Inr (tiny_model\<lparr>z1 := Some [], a1 := Some [], z2 := Some [], a2 := Some []\<rparr>, [])"
    by (rule forward_empty_batch)
  have p: "\<forall>e. permutation quiet_rng e = []"
    by (simp add: quiet_rng_def)
  have sx: "has_shape [] 0 (input_size tiny_model)" and sy: "has_shape [] 0 (output_size tiny_model)"
    by (simp_all add: has_shape_def)
  have one: "(1::nat) \<le> 1" by simp
  show ?thesis
    using training_divides_by_batch_size [OF wf sx sy f, of "1 / 100" 1 "0::nat" "0::nat"
        "\<lambda>e. []" "[]" "[]" 0 tiny_model quiet_rng "\<lambda>d. []" "''weights.json''" Map.empty] f p one
    by (metis One_nat_def)
qed

subsection \<open>The training loop and its evaluation pass\<close>

lemma bnd_eq_Inr: "bnd r f = Inr v \<longleftrightarrow> (\<exists>u. r = Inr u \<and> f u = Inr v)"
  by (cases r) (simp_all add: bnd_def)

lemma bnd_assoc: "bnd (bnd r f) g = bnd r (\<lambda>u. bnd (f u) g)"
  by (cases r) (simp_all add: bnd_def)

lemma forward_overwrites_cache:
  "forward (s\<lparr>z1 := c1, a1 := c2, z2 := c3, a2 := c4\<rparr>) x = forward s x"
  by (simp add: forward_def Let_def)

lemma forward_cong:
  assumes "forget_cache s = forget_cache t"
  shows "forward s x = forward t x"
proof -
  have "forward s x = forward (forget_cache s) x"
    unfolding forget_cache_def by (rule forward_overwrites_cache [symmetric])
  also have "\<dots> = forward (forget_cache t) x" by (simp add: assms)
  also have "\<dots> = forward t x"
    unfolding forget_cache_def by (rule forward_overwrites_cache)
  finally show ?thesis .
qed

lemma forward_rows:
  assumes "forward s x = Inr r"
  shows "\<forall>row \<in> set x. length row = length (W1 s)"
proof (rule ccontr)
  assume "\<not> ?thesis"
  then have "dot x (W1 s) = Inl ValueError" by (auto simp: dot_def)
  then show False using assms by (simp add: forward_def)
qed

lemma map_e_all_Inr:
  "map_e f xs = Inr ys \<Longrightarrow> x \<in> set xs \<Longrightarrow> \<exists>v. f x = Inr v"
  by (induction xs arbitrary: ys) (auto simp: bnd_eq_Inr)

lemma mat_op_same_shape:
  assumes "mat_op f A B = Inr C" and "has_shape A m n"
  shows "has_shape B m n"
proof -
  have len: "length A = length B"
    using assms(1) by (auto simp: mat_op_def split: if_splits)
  then have ok: "map_e (\<lambda>(r, s). vec_op f r s) (zip A B) = Inr C"
    using assms(1) by (simp add: mat_op_def)
  have "length (B ! i) = n" if "i < length B" for i
  proof -
    have "(A ! i, B ! i) \<in> set (zip A B)"
      using that len by (auto simp: set_zip)
    then obtain v where "vec_op f (A ! i) (B ! i) = Inr v"
      using map_e_all_Inr [OF ok] by fastforce
    then have "length (A ! i) = length (B ! i)"
      by (auto simp: vec_op_def split: if_splits)
    then show ?thesis using assms(2) that len by (auto simp: has_shape_def)
  qed
  then show ?thesis using len assms(2) by (auto simp: has_shape_def in_set_conv_nth)
qed

lemma backward_label_shape:
  assumes "backward s x y lr = Inr s'" and "a2 s = Some A2" and "has_shape A2 m n"
  shows "has_shape y m n"
proof -
  obtain dz2 where "mat_op (-) A2 y = Inr dz2"
    using assms(1,2) by (auto simp: backward_def Let_def cached_def bnd_eq_Inr)
  then show ?thesis using assms(3) by (rule mat_op_same_shape)
qed

lemma well_formed_gradient_descent_step:
  "well_formed s \<Longrightarrow> well_formed (gradient_descent_step s X Y lr Z A B)"
  by (simp add: well_formed_def gradient_descent_step_def Let_def)

lemma sizes_gradient_descent_step:
  "input_size (gradient_descent_step s X Y lr Z A B) = input_size s"
  "hidden_size (gradient_descent_step s X Y lr Z A B) = hidden_size s"
  "output_size (gradient_descent_step s X Y lr Z A B) = output_size s"
  by (simp_all add: gradient_descent_step_def Let_def)

lemma well_formed_forget_cache: "well_formed (forget_cache s) = well_formed s"
  by (simp add: well_formed_def forget_cache_def)

lemma parameters_forget_cache: "parameters (forget_cache s) = parameters s"
  by (simp add: parameters_def forget_cache_def)

lemma take_rows_facts:
  "take_rows X idx = Inr B \<Longrightarrow> length B = length idx \<and> set B \<subseteq> set X"
  unfolding take_rows_def
  by (induction idx arbitrary: B) (auto simp: bnd_eq_Inr split: if_splits)

lemma argmax_nonempty: "r \<noteq> [] \<Longrightarrow> \<exists>i. argmax r = Inr i"
  by (cases r) (simp_all add: argmax_def np_max_def)

lemma map_e_total:
  assumes "\<And>x. x \<in> set xs \<Longrightarrow> \<exists>v. f x = Inr v"
  shows "\<exists>vs. map_e f xs = Inr vs \<and> length vs = length xs"
  using assms
proof (induction xs)
  case Nil
  then show ?case by simp
next
  case (Cons a xs)
  then obtain v vs where "f a = Inr v" "map_e f xs = Inr vs" "length vs = length xs"
    by (metis list.set_intros(1,2))
  then show ?case by simp
qed

lemma accuracy_does_not_raise:
  assumes "has_shape P k n" and "has_shape Y k c" and "0 < n" and "0 < c"
  shows "\<exists>v. metric (accuracy P Y) = Inr v"
proof -
  obtain pl where pl: "map_e argmax P = Inr pl" "length pl = length P"
    using assms(1,3) map_e_total [of P argmax] argmax_nonempty
    by (metis has_shape_def length_greater_0_conv)
  obtain tl where tl: "map_e argmax Y = Inr tl" "length tl = length Y"
    using assms(2,4) map_e_total [of Y argmax] argmax_nonempty
    by (metis has_shape_def length_greater_0_conv)
  have "length pl = length tl"
    using pl tl assms(1,2) by (simp add: has_shape_def)
  then show ?thesis
    by (simp add: accuracy_def pl tl np_mean_def metric_def)
qed

lemma train_epoch_split:
  "train_epoch perm X_train y_train X_test y_test lr k s =
     bnd (train_epoch_without_evaluation perm X_train y_train lr k s) (\<lambda>model.
       if (k + 1) mod 10 = 0
       then bnd (forward model X_test) (\<lambda>(model, test_pred).
            bnd (metric (accuracy test_pred y_test)) (\<lambda>test_acc. Inr model))
       else Inr model)"
  unfolding train_epoch_def train_epoch_without_evaluation_def Let_def
  by (simp add: bnd_assoc split_def)

lemma train_epoch_without_evaluation_cong:
  assumes "forget_cache s = forget_cache t"
  shows "train_epoch_without_evaluation perm X_train y_train lr k s
       = train_epoch_without_evaluation perm X_train y_train lr k t"
  by (simp add: train_epoch_without_evaluation_def forward_cong [OF assms])

lemma training_step_success:
  assumes wf: "well_formed s"
    and ok: "train_epoch_without_evaluation perm X_train y_train lr k s = Inr s2"
    and X: "\<forall>r \<in> set X_train. length r = d" and Y: "\<forall>r \<in> set y_train. length r = c"
  shows "well_formed s2 \<and> input_size s2 = d \<and> output_size s2 = c
    \<and> hidden_size s2 = hidden_size s \<and> input_size s = d \<and> output_size s = c"
proof -
  obtain Xs ys s1 p where tx: "take_rows X_train (perm k) = Inr Xs"
    and ty: "take_rows y_train (perm k) = Inr ys"
    and fw: "forward s Xs = Inr (s1, p)"
    and bw: "backward s1 Xs ys lr = Inr s2"
    using ok unfolding train_epoch_without_evaluation_def Let_def
    by (auto simp: bnd_eq_Inr)
  let ?m = "length Xs"
  have "length (W1 s) = input_size s"
    using wf by (simp add: well_formed_def has_shape_def)
  then have xs: "has_shape Xs ?m (input_size s)"
    using forward_rows [OF fw] by (simp add: has_shape_def)
  obtain Z2 where s1: "s1 = s\<lparr>z1 := Some (hidden_pre_activation s Xs),
      a1 := Some (relu (hidden_pre_activation s Xs)), z2 := Some Z2, a2 := Some p\<rparr>"
    and p: "has_shape p ?m (output_size s)"
    using forward_shapes [OF wf xs] fw by auto
  have "a2 s1 = Some p" by (simp add: s1)
  then have ysh: "has_shape ys ?m (output_size s)"
    using backward_label_shape [OF bw] p by blast
  have run: "backward s1 Xs ys lr =
        (if ?m = 0 then Inl NotFinite
         else Inr (gradient_descent_step s1 Xs ys lr
                (hidden_pre_activation s Xs) (relu (hidden_pre_activation s Xs)) p))"
    using backward_after_forward [OF wf xs ysh fw] by simp
  have m: "?m \<noteq> 0" using run bw by auto
  then have s2: "s2 = gradient_descent_step s1 Xs ys lr
                (hidden_pre_activation s Xs) (relu (hidden_pre_activation s Xs)) p"
    using run bw by simp
  have wf1: "well_formed s1" unfolding s1 well_formed_cache_update by (rule wf)
  have wf2: "well_formed s2" unfolding s2 using wf1 by (rule well_formed_gradient_descent_step)
  have sz: "input_size s2 = input_size s" "output_size s2 = output_size s"
    "hidden_size s2 = hidden_size s"
    by (simp_all add: s2 sizes_gradient_descent_step s1)
  obtain r0 where r0: "r0 \<in> set Xs" using m by (cases Xs) auto
  then have "length r0 = input_size s" using xs by (simp add: has_shape_def)
  moreover have "length r0 = d" using r0 take_rows_facts [OF tx] X by auto
  ultimately have d: "input_size s = d" by simp
  have "length ys = ?m" using take_rows_facts [OF tx] take_rows_facts [OF ty] by simp
  then obtain q0 where q0: "q0 \<in> set ys" using m by (cases ys) auto
  then have "length q0 = output_size s" using ysh by (simp add: has_shape_def)
  moreover have "length q0 = c" using q0 take_rows_facts [OF ty] Y by auto
  ultimately have c: "output_size s = c" by simp
  show ?thesis using wf2 sz d c by simp
qed

lemma evaluation_succeeds:
  assumes wf: "well_formed s2"
    and X: "has_shape X_test k (input_size s2)" and Y: "has_shape y_test k (output_size s2)"
  shows "\<exists>s3. bnd (forward s2 X_test) (\<lambda>(model, test_pred).
            bnd (metric (accuracy test_pred y_test)) (\<lambda>test_acc. Inr model)) = Inr s3
          \<and> forget_cache s3 = forget_cache s2"
proof -
  obtain Z2 A2 where fw: "forward s2 X_test = Inr (s2\<lparr>z1 := Some (hidden_pre_activation s2 X_test),
         a1 := Some (relu (hidden_pre_activation s2 X_test)), z2 := Some Z2, a2 := Some A2\<rparr>, A2)"
    and A2: "has_shape A2 k (output_size s2)"
    using forward_shapes [OF wf X] by blast
  have pos: "0 < output_size s2" using wf by (simp add: well_formed_def)
  obtain v where "metric (accuracy A2 y_test) = Inr v"
    using accuracy_does_not_raise [OF A2 Y pos pos] by blast
  then show ?thesis by (simp add: fw forget_cache_def)
qed

lemma parameters_cong: "forget_cache s = forget_cache t \<Longrightarrow> parameters s = parameters t"
  using parameters_forget_cache [of s] parameters_forget_cache [of t] by simp

lemma well_formed_cong: "forget_cache s = forget_cache t \<Longrightarrow> well_formed s = well_formed t"
  using well_formed_forget_cache [of s] well_formed_forget_cache [of t] by simp

lemma sizes_cong:
  assumes "forget_cache s = forget_cache t"
  shows "input_size s = input_size t" and "output_size s = output_size t"
proof -
  have "input_size (forget_cache s) = input_size s" "input_size (forget_cache t) = input_size t"
    "output_size (forget_cache s) = output_size s" "output_size (forget_cache t) = output_size t"
    by (simp_all add: forget_cache_def)
  then show "input_size s = input_size t" and "output_size s = output_size t"
    using assms by simp_all
qed

lemma epochs_in_lockstep:
  assumes wf: "well_formed model"
    and X: "\<forall>r \<in> set X_train \<union> set X_test. length r = d"
    and Y: "\<forall>r \<in> set y_train \<union> set y_test. length r = c"
    and len: "length X_test = length y_test"
  shows "(\<forall>e. train_epochs perm X_train y_train X_test y_test lr k model = Inl e
            \<longrightarrow> train_epochs_without_evaluation perm X_train y_train lr k model = Inl e)
    \<and> (\<forall>s. train_epochs perm X_train y_train X_test y_test lr k model = Inr s
            \<longrightarrow> (\<exists>t. train_epochs_without_evaluation perm X_train y_train lr k model = Inr t
                  \<and> forget_cache s = forget_cache t \<and> well_formed t
                  \<and> input_size t = input_size model \<and> hidden_size t = hidden_size model
                  \<and> output_size t = output_size model))"
proof (induction k)
  case 0
  show ?case using wf by simp
next
  case (Suc k)
  let ?eval = "\<lambda>model. if (k + 1) mod 10 = 0
       then bnd (forward model X_test) (\<lambda>(model, test_pred).
            bnd (metric (accuracy test_pred y_test)) (\<lambda>test_acc. Inr model))
       else Inr model"
  show ?case
  proof (cases "train_epochs perm X_train y_train X_test y_test lr k model")
    case (Inl e)
    then have "train_epochs_without_evaluation perm X_train y_train lr k model = Inl e"
      using Suc by blast
    with Inl show ?thesis by simp
  next
    case (Inr s)
    then obtain t where t: "train_epochs_without_evaluation perm X_train y_train lr k model = Inr t"
      and st: "forget_cache s = forget_cache t" and wft: "well_formed t"
      and szt: "input_size t = input_size model" "hidden_size t = hidden_size model"
        "output_size t = output_size model"
      using Suc by blast
    have step: "train_epoch perm X_train y_train X_test y_test lr k s
        = bnd (train_epoch_without_evaluation perm X_train y_train lr k t) ?eval"
      unfolding train_epoch_split train_epoch_without_evaluation_cong [OF st] ..
    show ?thesis
    proof (cases "train_epoch_without_evaluation perm X_train y_train lr k t")
      case (Inl e)
      then show ?thesis using Inr t step by simp
    next
      case inner: (Inr s2)
      have s2: "well_formed s2" "input_size s2 = d" "output_size s2 = c"
        and sz2: "input_size s2 = input_size model" "hidden_size s2 = hidden_size model"
          "output_size s2 = output_size model"
        using training_step_success [OF wft inner, of d c] X Y szt by auto
      have "\<exists>s3. ?eval s2 = Inr s3 \<and> forget_cache s3 = forget_cache s2"
      proof (cases "(k + 1) mod 10 = 0")
        case True
        have "has_shape X_test (length X_test) (input_size s2)"
          "has_shape y_test (length X_test) (output_size s2)"
          using X Y len s2 by (auto simp: has_shape_def)
        then have "\<exists>s3. bnd (forward s2 X_test) (\<lambda>(model, test_pred).
            bnd (metric (accuracy test_pred y_test)) (\<lambda>test_acc. Inr model)) = Inr s3
          \<and> forget_cache s3 = forget_cache s2"
          by (rule evaluation_succeeds [OF s2(1)])
        then show ?thesis using True by simp
      next
        case False
        then show ?thesis by simp
      qed
      then obtain s3 where "?eval s2 = Inr s3" "forget_cache s3 = forget_cache s2"
        by blast
      then show ?thesis using Inr t step inner s2(1) sz2 by simp
    qed
  qed
qed

text \<open>
  Claim C7. The evaluation pass of every tenth epoch has no effect on training. For a
  model of the shapes its constructor gives and a dataset split as \<open>train\<close> splits
  it, the loop with the evaluation pass and the loop without it end, after any number
  of epochs, in the same parameters \<open>W1\<close>, \<open>b1\<close>, \<open>W2\<close>, \<open>b2\<close>, or fail alike; so the two
  sequences of parameter values over the epochs coincide. The evaluation pass does
  overwrite the cached activations, but \<open>forward\<close> never reads them: on a model whose
  cache was overwritten it returns what it returns on the model itself, and it is
  called on the training batch before \<open>backward\<close> reads the cache.
\<close>

theorem evaluation_has_no_effect_on_training:
  assumes "well_formed model"
    and "has_shape X n d" and "has_shape y n c"
    and "split_data X y = (X_train, X_test, y_train, y_test)"
  shows "map_sum id parameters
           (train_epochs perm X_train y_train X_test y_test learning_rate epochs model)
       = map_sum id parameters
           (train_epochs_without_evaluation perm X_train y_train learning_rate epochs model)
    \<and> forward (s\<lparr>z1 := c1, a1 := c2, z2 := c3, a2 := c4\<rparr>) batch = forward s batch"
proof -
  let ?k = "split_index (length X)"
  have parts: "X_train = take ?k X" "X_test = drop ?k X" "y_train = take ?k y" "y_test = drop ?k y"
    using assms(4) by (simp_all add: split_data_def Let_def)
  have X: "\<forall>r \<in> set X_train \<union> set X_test. length r = d"
    using assms(2) unfolding parts has_shape_def
    by (auto dest: in_set_takeD in_set_dropD)
  have Y: "\<forall>r \<in> set y_train \<union> set y_test. length r = c"
    using assms(3) unfolding parts has_shape_def
    by (auto dest: in_set_takeD in_set_dropD)
  have len: "length X_test = length y_test"
    using assms(2,3) unfolding parts has_shape_def by simp
  note lock = epochs_in_lockstep [OF assms(1) X Y len, of perm learning_rate epochs]
  have "map_sum id parameters
           (train_epochs perm X_train y_train X_test y_test learning_rate epochs model)
       = map_sum id parameters
           (train_epochs_without_evaluation perm X_train y_train learning_rate epochs model)"
  proof (cases "train_epochs perm X_train y_train X_test y_test learning_rate epochs model")
    case (Inl e)
    then show ?thesis using lock by simp
  next
    case (Inr s')
    then obtain t where t: "train_epochs_without_evaluation perm X_train y_train learning_rate epochs model = Inr t"
      and st: "forget_cache s' = forget_cache t"
      using lock by blast
    have "parameters s' = parameters t" using st by (rule parameters_cong)
    then show ?thesis by (simp add: Inr t)
  qed
  then show ?thesis by (simp add: forward_overwrites_cache)
qed


theorem evaluation_has_no_effect_on_training_witness:
  "split_data [[1], [1 :: real]] [[1, 0], [1, 0 :: real]] = ([[1]], [[1]], [[1, 0]], [[1, 0]])
   \<and> map_sum id parameters
           (train_epochs (\<lambda>e. [0]) [[1]] [[1, 0]] [[1]] [[1, 0]] (1 / 10) 10 tiny_model)
       = map_sum id parameters
           (train_epochs_without_evaluation (\<lambda>e. [0]) [[1]] [[1, 0]] (1 / 10) 10 tiny_model)"
proof -
  have wf: "well_formed tiny_model"
    by (simp add: well_formed_def tiny_model_def has_shape_def)
  have sx: "has_shape [[1], [1 :: real]] 2 1" and sy: "has_shape [[1, 0], [1, 0 :: real]] 2 2"
    by (simp_all add: has_shape_def)
  have sp: "split_data [[1], [1 :: real]] [[1, 0], [1, 0 :: real]] = ([[1]], [[1]], [[1, 0]], [[1, 0]])"
    by (simp add: split_data_def Let_def split_index_div)
  show ?thesis
    using evaluation_has_no_effect_on_training [OF wf sx sy sp, of "\<lambda>e. [0]" "1 / 10" 10] sp
    by blast
qed

subsection \<open>The trained model and its export\<close>

lemma forward_forget:
  assumes "forward s x = Inr (s', p)"
  shows "forget_cache s' = forget_cache s"
  using assms by (auto simp: forward_def Let_def bnd_eq_Inr forget_cache_def)

lemma sizes_forget:
  assumes "forget_cache s = forget_cache t"
  shows "input_size s = input_size t \<and> hidden_size s = hidden_size t \<and> output_size s = output_size t"
proof -
  have "input_size (forget_cache s) = input_size s" "input_size (forget_cache t) = input_size t"
    "hidden_size (forget_cache s) = hidden_size s" "hidden_size (forget_cache t) = hidden_size t"
    "output_size (forget_cache s) = output_size s" "output_size (forget_cache t) = output_size t"
    by (simp_all add: forget_cache_def)
  then show ?thesis using assms by simp
qed

lemma weights_document_forget: "weights_document (forget_cache s) = weights_document s"
  by (simp add: weights_document_def forget_cache_def)

lemma weights_document_cong:
  "forget_cache s = forget_cache t \<Longrightarrow> weights_document s = weights_document t"
  using weights_document_forget [of s] weights_document_forget [of t] by simp

lemma sample_prediction_forget:
  assumes "sample_prediction X_test y_test idx s = Inr s'"
  shows "forget_cache s' = forget_cache s"
proof (cases "forward s (take 1 (drop idx X_test))")
  case (Inl e)
  then show ?thesis
    using assms by (simp add: sample_prediction_def split: if_splits)
next
  case (Inr u)
  obtain s1 preds where sp: "u = (s1, preds)" by (cases u)
  have "s' = s1"
  proof (cases preds)
    case Nil
    then show ?thesis
      using assms Inr sp by (simp add: sample_prediction_def split: if_splits)
  next
    case (Cons pred rest)
    then show ?thesis
      using assms Inr sp
      by (simp add: sample_prediction_def bnd_eq_Inr split: if_splits) blast
  qed
  then show ?thesis using Inr sp forward_forget by blast
qed

lemma sample_predictions_forget:
  "sample_predictions rint X_test y_test i s = Inr s' \<Longrightarrow> forget_cache s' = forget_cache s"
proof (induction i arbitrary: s')
  case 0
  then show ?case by simp
next
  case (Suc i)
  then obtain s1 where "sample_predictions rint X_test y_test i s = Inr s1"
    and "sample_prediction X_test y_test (rint i) s1 = Inr s'"
    by (auto simp: bnd_eq_Inr)
  then show ?case using Suc.IH sample_prediction_forget by metis
qed

lemma init_predictor_well_formed:
  assumes "init_predictor n_in n_hid n_out r1 r2 = Inr s" and "0 < n_out"
  shows "well_formed s \<and> input_size s = n_in \<and> hidden_size s = n_hid \<and> output_size s = n_out"
  using assms by (auto simp: init_predictor_def well_formed_def split: if_splits)

lemma generated_rows:
  "has_shape (fst (generate_training_data n rng)) n 4"
  "has_shape (snd (generate_training_data n rng)) n 3"
proof -
  show "has_shape (fst (generate_training_data n rng)) n 4"
    using sample_feature_props by (auto simp: has_shape_def generate_fst)
  have "length (snd (generate_sample d)) = 3" for d
    by (simp add: generate_sample_def Let_def label_one_hot)
  then show "has_shape (snd (generate_training_data n rng)) n 3"
    by (auto simp: has_shape_def generate_snd)
qed

lemma map_e_row_length: "map_e f r = Inr r' \<Longrightarrow> length r' = length r"
  by (rule map_e_length)

lemma finite_matrix_shape:
  assumes "finite_matrix Xf = Inr X" and "has_shape Xf n d"
  shows "has_shape X n d"
proof -
  have rows: "map_e (map_e finite_value) Xf = Inr X \<Longrightarrow> (\<forall>r \<in> set Xf. length r = d)
      \<Longrightarrow> (\<forall>r \<in> set X. length r = d)" for X
    by (induction Xf arbitrary: X) (auto simp: bnd_eq_Inr dest: map_e_length)
  have "length X = length Xf"
    using assms(1) unfolding finite_matrix_def by (rule map_e_length)
  then show ?thesis
    using rows assms by (simp add: has_shape_def finite_matrix_def)
qed

lemma has_shape_real_labels:
  "has_shape yl n c \<Longrightarrow> has_shape (map (map real_of_int) yl) n c"
  by (auto simp: has_shape_def)

lemma split_data_shapes:
  assumes "has_shape X n d" and "has_shape y n c"
    and "split_data X y = (X_train, X_test, y_train, y_test)"
  shows "\<forall>r \<in> set X_train \<union> set X_test. length r = d"
    and "\<forall>r \<in> set y_train \<union> set y_test. length r = c"
    and "length X_test = length y_test" and "length X_train = length y_train"
    and "length X_train = split_index n" and "length X_test = n - split_index n"
proof -
  let ?k = "split_index (length X)"
  have parts: "X_train = take ?k X" "X_test = drop ?k X" "y_train = take ?k y" "y_test = drop ?k y"
    using assms(3) by (simp_all add: split_data_def Let_def)
  show "\<forall>r \<in> set X_train \<union> set X_test. length r = d"
    using assms(1) unfolding parts has_shape_def
    by (auto dest: in_set_takeD in_set_dropD)
  show "\<forall>r \<in> set y_train \<union> set y_test. length r = c"
    using assms(2) unfolding parts has_shape_def
    by (auto dest: in_set_takeD in_set_dropD)
  show "length X_test = length y_test" "length X_train = length y_train"
    using assms(1,2) unfolding parts has_shape_def by simp_all
  show "length X_train = split_index n" "length X_test = n - split_index n"
    using assms(1) split_index_le [of n] unfolding parts has_shape_def by auto
qed

lemma train_epochs_invariant:
  assumes "well_formed model"
    and "\<forall>r \<in> set X_train \<union> set X_test. length r = d"
    and "\<forall>r \<in> set y_train \<union> set y_test. length r = c"
    and "length X_test = length y_test"
    and "train_epochs perm X_train y_train X_test y_test lr k model = Inr s"
  shows "well_formed s \<and> input_size s = input_size model \<and> hidden_size s = hidden_size model
    \<and> output_size s = output_size model"
proof -
  obtain t where t: "forget_cache s = forget_cache t" "well_formed t"
    "input_size t = input_size model" "hidden_size t = hidden_size model"
    "output_size t = output_size model"
    using epochs_in_lockstep [OF assms(1-4), of perm lr k] assms(5) by blast
  then show ?thesis
    using well_formed_cong [OF t(1)] sizes_forget [OF t(1)] by simp
qed

lemma np_max_in_row:
  assumes "r \<noteq> []"
  shows "\<exists>mx. np_max r = Inr mx \<and> mx \<in> set r"
proof -
  obtain v vs where r: "r = v # vs" using assms by (cases r) auto
  have "fold max vs v = Max (set (v # vs))" by (rule Max.set_eq_fold [symmetric])
  moreover have "Max (set (v # vs)) \<in> set (v # vs)" by (rule Max_in) simp_all
  ultimately show ?thesis by (simp add: np_max_def r)
qed

lemma argmax_less:
  assumes "r \<noteq> []"
  shows "\<exists>i. argmax r = Inr i \<and> i < length r"
proof -
  obtain mx where mx: "np_max r = Inr mx" "mx \<in> set r"
    using np_max_in_row [OF assms] by blast
  have "takeWhile (\<lambda>v. v \<noteq> mx) r \<noteq> r"
    using mx(2) by (auto simp: takeWhile_eq_all_conv)
  moreover have "length (takeWhile (\<lambda>v. v \<noteq> mx) r) \<le> length r"
    by (rule length_takeWhile_le)
  ultimately have "length (takeWhile (\<lambda>v. v \<noteq> mx) r) < length r"
    by (metis le_neq_implies_less takeWhile_eq_take take_all_iff order_refl)
  then show ?thesis by (simp add: argmax_def mx)
qed

lemma compute_loss_does_not_raise:
  assumes "has_shape P m n" and "has_shape Y m n"
  shows "\<exists>v. metric (compute_loss P Y) = Inr v"
proof -
  let ?Q = "map (map ln) (map (map (\<lambda>v. clip v (1 / 10 ^ 15) (1 - 1 / 10 ^ 15))) P)"
  have "\<forall>(p, y) \<in> set (zip P Y). length p = length y"
    using assms by (auto simp: has_shape_def elim!: in_set_zipE)
  then have "\<forall>(r, s) \<in> set (zip Y ?Q). length r = length s"
    by (rule zip_swap_shape)
  moreover have "length Y = length ?Q"
    using assms by (simp add: has_shape_def)
  ultimately have "mat_op (*) Y ?Q = Inr (map2 (map2 (*)) Y ?Q)"
    by (intro mat_op_Inr)
  then show ?thesis
    by (simp add: compute_loss_def Let_def np_mean_def metric_def)
qed

lemma take_rows_total:
  assumes "\<forall>i \<in> set idx. i < length X" and "\<forall>r \<in> set X. length r = d"
  shows "\<exists>B. take_rows X idx = Inr B \<and> has_shape B (length idx) d"
proof -
  have "take_rows X idx = Inr (map (\<lambda>i. X ! i) idx)"
    unfolding take_rows_def using assms(1) by (intro map_e_Inr) simp
  moreover have "has_shape (map (\<lambda>i. X ! i) idx) (length idx) d"
    using assms by (auto simp: has_shape_def)
  ultimately show ?thesis by blast
qed

lemma training_step_total:
  assumes wf: "well_formed s" and d: "input_size s = d" and c: "output_size s = c"
    and X: "\<forall>r \<in> set X_train. length r = d" and Y: "\<forall>r \<in> set y_train. length r = c"
    and len: "length X_train = length y_train"
    and idx: "perm k \<noteq> []" "\<forall>i \<in> set (perm k). i < length X_train"
  shows "\<exists>s2. train_epoch_without_evaluation perm X_train y_train lr k s = Inr s2"
proof -
  let ?m = "length (perm k)"
  obtain Xs where Xs: "take_rows X_train (perm k) = Inr Xs" "has_shape Xs ?m d"
    using take_rows_total [OF idx(2) X] by blast
  obtain ys where ys: "take_rows y_train (perm k) = Inr ys" "has_shape ys ?m c"
    using take_rows_total [of "perm k" y_train c] idx(2) Y len by auto
  have xs': "has_shape Xs ?m (input_size s)" and ys': "has_shape ys ?m (output_size s)"
    using Xs ys d c by simp_all
  obtain Z2 A2 where fw: "forward s Xs = Inr (s\<lparr>z1 := Some (hidden_pre_activation s Xs),
         a1 := Some (relu (hidden_pre_activation s Xs)), z2 := Some Z2, a2 := Some A2\<rparr>, A2)"
    and A2: "has_shape A2 ?m (output_size s)"
    using forward_shapes [OF wf xs'] by blast
  obtain l where l: "metric (compute_loss A2 ys) = Inr l"
    using compute_loss_does_not_raise [OF A2 ys'] by blast
  have pos: "0 < output_size s" using wf by (simp add: well_formed_def)
  obtain a where a: "metric (accuracy A2 ys) = Inr a"
    using accuracy_does_not_raise [OF A2 ys' pos pos] by blast
  have m: "?m \<noteq> 0" using idx(1) by simp
  have "\<exists>s2. backward (s\<lparr>z1 := Some (hidden_pre_activation s Xs),
         a1 := Some (relu (hidden_pre_activation s Xs)), z2 := Some Z2, a2 := Some A2\<rparr>) Xs ys lr = Inr s2"
    using backward_after_forward [OF wf xs' ys' fw, of lr] m by simp
  then show ?thesis
    by (simp add: train_epoch_without_evaluation_def Let_def Xs ys fw l a)
qed

lemma train_epochs_total:
  assumes wf: "well_formed model" and d: "input_size model = d" and c: "output_size model = c"
    and X: "\<forall>r \<in> set X_train \<union> set X_test. length r = d"
    and Y: "\<forall>r \<in> set y_train \<union> set y_test. length r = c"
    and len: "length X_test = length y_test" "length X_train = length y_train"
    and idx: "\<forall>e. perm e \<noteq> [] \<and> (\<forall>i \<in> set (perm e). i < length X_train)"
  shows "\<exists>s. train_epochs perm X_train y_train X_test y_test lr k model = Inr s"
proof (induction k)
  case 0
  show ?case by simp
next
  case (Suc k)
  then obtain s where s: "train_epochs perm X_train y_train X_test y_test lr k model = Inr s"
    by blast
  have inv: "well_formed s" "input_size s = d" "output_size s = c"
    using train_epochs_invariant [OF wf X Y len(1) s] d c by simp_all
  have Xt: "\<forall>r \<in> set X_train. length r = d" and Yt: "\<forall>r \<in> set y_train. length r = c"
    using X Y by simp_all
  obtain s2 where s2: "train_epoch_without_evaluation perm X_train y_train lr k s = Inr s2"
    using training_step_total [OF inv Xt Yt len(2)] idx by blast
  have wf2: "well_formed s2" "input_size s2 = d" "output_size s2 = c"
    using training_step_success [OF inv(1) s2 Xt Yt] by simp_all
  have "has_shape X_test (length X_test) (input_size s2)"
    "has_shape y_test (length X_test) (output_size s2)"
    using X Y len(1) wf2 by (auto simp: has_shape_def)
  then have "\<exists>s3. bnd (forward s2 X_test) (\<lambda>(model, test_pred).
            bnd (metric (accuracy test_pred y_test)) (\<lambda>test_acc. Inr model)) = Inr s3
          \<and> forget_cache s3 = forget_cache s2"
    by (rule evaluation_succeeds [OF wf2(1)])
  then show ?case
    by (auto simp: s train_epoch_split s2)
qed

lemma take_one_row: "i < length xs \<Longrightarrow> take 1 (drop i xs) = [xs ! i]"
  by (simp add: Cons_nth_drop_Suc [symmetric])

lemma sample_prediction_total:
  assumes wf: "well_formed s" and d: "input_size s = d" and c: "output_size s = c"
    and c3: "c \<le> length label_names"
    and X: "\<forall>r \<in> set X_test. length r = d" and Y: "\<forall>r \<in> set y_test. length r = c"
    and len: "length X_test = length y_test" and idx: "idx < length X_test"
  shows "\<exists>s'. sample_prediction X_test y_test idx s = Inr s'"
proof -
  have row: "take 1 (drop idx X_test) = [X_test ! idx]"
    using idx by (rule take_one_row)
  have "has_shape [X_test ! idx] 1 (input_size s)"
    using X idx d by (simp add: has_shape_def)
  then obtain Z2 A2 where fw: "forward s [X_test ! idx] = Inr (s\<lparr>z1 := Some (hidden_pre_activation s [X_test ! idx]),
         a1 := Some (relu (hidden_pre_activation s [X_test ! idx])), z2 := Some Z2, a2 := Some A2\<rparr>, A2)"
    and A2: "has_shape A2 1 (output_size s)"
    using forward_shapes [OF wf] by blast
  obtain pred where pred: "A2 = [pred]" "length pred = c"
    using A2 c by (cases A2) (auto simp: has_shape_def)
  have pos: "0 < c" using wf c by (simp add: well_formed_def)
  have "y_test ! idx \<noteq> []" using Y idx len pos by (metis length_greater_0_conv nth_mem)
  then obtain t where t: "argmax (y_test ! idx) = Inr t" "t < length (y_test ! idx)"
    using argmax_less by blast
  have "length (y_test ! idx) = c" using Y idx len by simp
  then have t3: "t < length label_names" using t c3 by simp
  have "pred \<noteq> []" using pred pos by auto
  then obtain p where p: "argmax pred = Inr p" "p < length pred"
    using argmax_less by blast
  then have p3: "p < length label_names" using pred c3 by simp
  have ne: "length X_test \<noteq> 0" "idx < length y_test"
    using idx len by auto
  show ?thesis
    unfolding sample_prediction_def row
    using ne t(1) t3 p(1) p3 by (simp add: fw pred)
qed

lemma sample_predictions_total:
  assumes wf: "well_formed s" and d: "input_size s = d" and c: "output_size s = c"
    and c3: "c \<le> length label_names"
    and X: "\<forall>r \<in> set X_test. length r = d" and Y: "\<forall>r \<in> set y_test. length r = c"
    and len: "length X_test = length y_test" and idx: "\<forall>i. rint i < length X_test"
  shows "\<exists>s'. sample_predictions rint X_test y_test k s = Inr s'"
proof (induction k)
  case 0
  show ?case by simp
next
  case (Suc k)
  then obtain s1 where s1: "sample_predictions rint X_test y_test k s = Inr s1" by blast
  have f: "forget_cache s1 = forget_cache s" using s1 by (rule sample_predictions_forget)
  have "well_formed s1" "input_size s1 = d" "output_size s1 = c"
    using well_formed_cong [OF f] sizes_forget [OF f] wf d c by simp_all
  then have "\<exists>s'. sample_prediction X_test y_test (rint k) s1 = Inr s'"
    using c3 X Y len idx by (intro sample_prediction_total) auto
  then show ?case by (simp add: s1)
qed

lemma train_steps:
  assumes "train epochs n_samples lr rng dumps path files = Inr (model, files')"
  shows "\<exists>X X_train X_test y_train y_test m0 m1 m2 test_pred.
      n_samples \<noteq> 0
      \<and> finite_matrix (fst (generate_training_data n_samples (sample_rng rng))) = Inr X
      \<and> split_data X (map (map real_of_int) (snd (generate_training_data n_samples (sample_rng rng))))
          = (X_train, X_test, y_train, y_test)
      \<and> init_predictor 4 16 3 (randn_W1 rng) (randn_W2 rng) = Inr m0
      \<and> train_epochs (permutation rng) X_train y_train X_test y_test lr epochs m0 = Inr m1
      \<and> forward m1 X_test = Inr (m2, test_pred)
      \<and> sample_predictions (randint rng) X_test y_test 5 m2 = Inr model
      \<and> files' = export_weights dumps m2 path files"
proof -
  let ?G = "generate_training_data n_samples (sample_rng rng)"
  have n0: "n_samples \<noteq> 0"
  proof
    assume "n_samples = 0"
    then have "train epochs n_samples lr rng dumps path files = Inl AxisError"
      by (simp add: train_def split_def Let_def)
    with assms show False by simp
  qed
  show ?thesis
  proof (cases "finite_matrix (fst ?G)")
    case (Inl e)
    then show ?thesis using assms n0 by (simp add: train_def split_def Let_def)
  next
    case (Inr X)
    obtain X_train X_test y_train y_test
      where sp: "split_data X (map (map real_of_int) (snd ?G)) = (X_train, X_test, y_train, y_test)"
      by (metis prod_cases4)
    have "bnd (init_predictor 4 16 3 (randn_W1 rng) (randn_W2 rng)) (\<lambda>model.
        bnd (train_epochs (permutation rng) X_train y_train X_test y_test lr epochs model)
          (\<lambda>model.
        bnd (forward model X_test) (\<lambda>(model, test_pred).
        bnd (metric (accuracy test_pred y_test)) (\<lambda>final_acc.
        bnd (sample_predictions (randint rng) X_test y_test 5 model) (\<lambda>model'.
        Inr (model', export_weights dumps model path files)))))) = Inr (model, files')"
      using assms n0 by (simp add: train_def split_def Inr sp Let_def)
    then show ?thesis
      using n0 Inr sp by (auto simp: bnd_eq_Inr)
  qed
qed


lemma label_index:
  "argmax (map real_of_int (label_of_change t))
     = Inr (if t > 1.5 then 0 else if t < - 1.5 then 1 else 2)"
  by (simp add: label_of_change_def argmax_def np_max_def)

lemma train_data_shapes:
  assumes "finite_matrix (fst (generate_training_data n (sample_rng rng))) = Inr X"
    and "split_data X (map (map real_of_int) (snd (generate_training_data n (sample_rng rng))))
          = (X_train, X_test, y_train, y_test)"
  shows "\<forall>r \<in> set X_train \<union> set X_test. length r = 4"
    and "\<forall>r \<in> set y_train \<union> set y_test. length r = 3"
    and "length X_test = length y_test" and "length X_train = length y_train"
    and "length X_train = split_index n" and "length X_test = n - split_index n"
proof -
  have X: "has_shape X n 4"
    using assms(1) generated_rows(1) by (rule finite_matrix_shape)
  have y: "has_shape (map (map real_of_int) (snd (generate_training_data n (sample_rng rng)))) n 3"
    using generated_rows(2) by (rule has_shape_real_labels)
  show "\<forall>r \<in> set X_train \<union> set X_test. length r = 4"
    and "\<forall>r \<in> set y_train \<union> set y_test. length r = 3"
    and "length X_test = length y_test" and "length X_train = length y_train"
    and "length X_train = split_index n" and "length X_test = n - split_index n"
    using split_data_shapes [OF X y assms(2)] by blast+
qed

text \<open>A run of \<open>train\<close> on finite features with a non-empty training subset returns.\<close>

lemma train_succeeds:
  assumes fm: "finite_matrix (fst (generate_training_data n (sample_rng rng))) = Inr X"
    and perms: "\<forall>e. permutation rng e \<noteq> [] \<and> (\<forall>i \<in> set (permutation rng e). i < split_index n)"
    and rint: "\<forall>i. randint rng i < n - split_index n"
  shows "\<exists>model files'. train epochs n lr rng dumps path files = Inr (model, files')"
proof -
  let ?y = "map (map real_of_int) (snd (generate_training_data n (sample_rng rng)))"
  obtain X_train X_test y_train y_test
    where sp: "split_data X ?y = (X_train, X_test, y_train, y_test)"
    by (metis prod_cases4)
  note data = train_data_shapes [OF fm sp]
  have n0: "n \<noteq> 0" using rint [rule_format, of 0] by simp
  obtain m0 where init: "init_predictor 4 16 3 (randn_W1 rng) (randn_W2 rng) = Inr m0"
    by (simp add: init_predictor_def)
  have m0: "well_formed m0" "input_size m0 = 4" "hidden_size m0 = 16" "output_size m0 = 3"
    using init_predictor_well_formed [OF init] by simp_all
  have idx: "\<forall>e. permutation rng e \<noteq> [] \<and> (\<forall>i \<in> set (permutation rng e). i < length X_train)"
    using perms data(5) by simp
  obtain m1 where ep: "train_epochs (permutation rng) X_train y_train X_test y_test lr epochs m0 = Inr m1"
    using train_epochs_total [OF m0(1,2,4) data(1,2,3,4) idx] by blast
  have m1: "well_formed m1" "input_size m1 = 4" "hidden_size m1 = 16" "output_size m1 = 3"
    using train_epochs_invariant [OF m0(1) data(1,2,3) ep] m0 by simp_all
  have "has_shape X_test (length X_test) (input_size m1)"
    "has_shape y_test (length X_test) (output_size m1)"
    using data(1,2,3) m1 by (auto simp: has_shape_def)
  then obtain Z2 A2 where fw: "forward m1 X_test = Inr (m1\<lparr>z1 := Some (hidden_pre_activation m1 X_test),
         a1 := Some (relu (hidden_pre_activation m1 X_test)), z2 := Some Z2, a2 := Some A2\<rparr>, A2)"
    and A2: "has_shape A2 (length X_test) (output_size m1)"
    and yt: "has_shape y_test (length X_test) (output_size m1)"
    using forward_shapes [OF m1(1)] by blast
  let ?m2 = "m1\<lparr>z1 := Some (hidden_pre_activation m1 X_test),
         a1 := Some (relu (hidden_pre_activation m1 X_test)), z2 := Some Z2, a2 := Some A2\<rparr>"
  have pos: "0 < output_size m1" using m1 by simp
  obtain acc where acc: "metric (accuracy A2 y_test) = Inr acc"
    using accuracy_does_not_raise [OF A2 yt pos pos] by blast
  have m2: "well_formed ?m2" "input_size ?m2 = 4" "output_size ?m2 = 3"
    using m1 by (simp_all add: well_formed_cache_update)
  have Xt: "\<forall>r \<in> set X_test. length r = 4" and Yt: "\<forall>r \<in> set y_test. length r = 3"
    using data(1,2) by simp_all
  have r: "\<forall>i. randint rng i < length X_test" using rint data(6) by simp
  have c3: "3 \<le> length label_names" by (simp add: label_names_def)
  obtain m3 where sps: "sample_predictions (randint rng) X_test y_test 5 ?m2 = Inr m3"
    using sample_predictions_total [OF m2 c3 Xt Yt data(3) r] by blast
  show ?thesis
    using n0 by (simp add: train_def split_def Let_def fm sp init ep fw acc sps)
qed

lemma upt_0_2: "[0..<2] = [0, 1]"
  by (simp add: upt_rec)

lemma steady_features_finite:
  "finite_matrix (fst (generate_training_data 2 (\<lambda>k. steady_draws)))
     = Inr [[1 / 5, 20 / 101, 10 / 51, 20 / 103], [1 / 5, 20 / 101, 10 / 51, 20 / 103]]"
proof -
  have "fst (generate_sample steady_draws) = [Fin (1 / 5), Fin (20 / 101), Fin (10 / 51), Fin (20 / 103)]"
    by (simp add: generate_sample_def Let_def percent_deltas_def upt_0_4 fl_div_def
        normalize_delta_cases eval_nat_numeral steady_draws_def)
  then show ?thesis
    by (simp add: generate_fst finite_matrix_def finite_value_def upt_0_2
        del: generate_training_data.simps)
qed

text \<open>
  The run of \<open>train\<close>, as long as it stays within real arithmetic: the file holds the
  serialized document of the returned model, whose parameters have the shapes that
  \<^verbatim>\<open>__init__\<close> gave them.
\<close>

lemma train_exports_returned_model:
  assumes "train epochs n_samples lr rng dumps path files = Inr (model, files')"
  shows "files' = files(path \<mapsto> dumps (weights_document model))
    \<and> weights_document model = JObject
         [(''model'', JString ''price-predictor''),
          (''version'', JString ''1.0.0''),
          (''architecture'', JObject
             [(''input_size'', JInt 4), (''hidden_size'', JInt 16), (''output_size'', JInt 3),
              (''activation'', JString ''relu''), (''output_activation'', JString ''softmax'')]),
          (''weights'', JObject
             [(''W1'', tolist2 (W1 model)), (''b1'', tolist1 (b1 model)),
              (''W2'', tolist2 (W2 model)), (''b2'', tolist1 (b2 model))]),
          (''labels'', JArray [JString ''UP'', JString ''DOWN'', JString ''SIDEWAYS''])]
    \<and> has_shape (W1 model) 4 16 \<and> length (b1 model) = 16
    \<and> has_shape (W2 model) 16 3 \<and> length (b2 model) = 3
    \<and> argmax (map real_of_int (label_of_change t))
         = Inr (if t > 1.5 then 0 else if t < - 1.5 then 1 else 2)
    \<and> label_names ! 0 = ''UP'' \<and> label_names ! 1 = ''DOWN'' \<and> label_names ! 2 = ''SIDEWAYS''"
proof -
  obtain X X_train X_test y_train y_test m0 m1 m2 test_pred
    where fm: "finite_matrix (fst (generate_training_data n_samples (sample_rng rng))) = Inr X"
      and sp: "split_data X (map (map real_of_int) (snd (generate_training_data n_samples (sample_rng rng))))
          = (X_train, X_test, y_train, y_test)"
      and init: "init_predictor 4 16 3 (randn_W1 rng) (randn_W2 rng) = Inr m0"
      and ep: "train_epochs (permutation rng) X_train y_train X_test y_test lr epochs m0 = Inr m1"
      and fw: "forward m1 X_test = Inr (m2, test_pred)"
      and sps: "sample_predictions (randint rng) X_test y_test 5 m2 = Inr model"
      and files': "files' = export_weights dumps m2 path files"
    using train_steps [OF assms] by blast
  have m0: "well_formed m0" "input_size m0 = 4" "hidden_size m0 = 16" "output_size m0 = 3"
    using init_predictor_well_formed [OF init] by simp_all
  note data = train_data_shapes [OF fm sp]
  have m1: "well_formed m1" "input_size m1 = 4" "hidden_size m1 = 16" "output_size m1 = 3"
    using train_epochs_invariant [OF m0(1) data(1,2,3) ep] m0 by simp_all
  have f2: "forget_cache m2 = forget_cache m1" using fw by (rule forward_forget)
  have f3: "forget_cache model = forget_cache m2" using sps by (rule sample_predictions_forget)
  have f: "forget_cache model = forget_cache m1" using f2 f3 by simp
  have wf: "well_formed model"
    and sz: "input_size model = 4" "hidden_size model = 16" "output_size model = 3"
    using well_formed_cong [OF f] sizes_forget [OF f] m1 by simp_all
  have "weights_document m2 = weights_document model"
    using f3 by (rule weights_document_cong [symmetric])
  then have "files' = files(path \<mapsto> dumps (weights_document model))"
    by (simp add: files' export_weights_def)
  moreover have "has_shape (W1 model) 4 16 \<and> length (b1 model) = 16
    \<and> has_shape (W2 model) 16 3 \<and> length (b2 model) = 3"
    using wf sz by (simp add: well_formed_def)
  ultimately show ?thesis
    by (simp add: weights_document_def sz label_names_def label_index)
qed

lemma train_on_two_samples:
  "\<exists>model files'. train 1 2 (1 / 100) busy_rng (\<lambda>d. ''doc'') ''weights.json'' Map.empty
       = Inr (model, files')
     \<and> files' ''weights.json'' = Some ''doc''
     \<and> has_shape (W1 model) 4 16 \<and> has_shape (W2 model) 16 3"
proof -
  have fm: "finite_matrix (fst (generate_training_data 2 (sample_rng busy_rng)))
     = Inr [[1 / 5, 20 / 101, 10 / 51, 20 / 103], [1 / 5, 20 / 101, 10 / 51, 20 / 103]]"
    using steady_features_finite by (simp add: busy_rng_def del: generate_training_data.simps)
  have perms: "\<forall>e. permutation busy_rng e \<noteq> [] \<and> (\<forall>i \<in> set (permutation busy_rng e). i < split_index 2)"
    by (simp add: busy_rng_def split_index_div)
  have rint: "\<forall>i. randint busy_rng i < 2 - split_index 2"
    by (simp add: busy_rng_def split_index_div)
  obtain model files' where run: "train 1 2 (1 / 100) busy_rng (\<lambda>d. ''doc'') ''weights.json'' Map.empty
       = Inr (model, files')"
    using train_succeeds [OF fm perms rint] by blast
  show ?thesis
    using train_exports_returned_model [OF run] run by auto
qed

lemma tolist1_entries:
  assumes "length u = n"
  shows "tolist1 u = JArray (map (\<lambda>j. JFloat (u ! j)) [0..<n])"
  unfolding tolist1_def using assms by (auto intro: nth_equalityI)

lemma tolist2_entries:
  assumes "has_shape A m n"
  shows "tolist2 A = JArray (map (\<lambda>i. JArray (map (\<lambda>j. JFloat (A ! i ! j)) [0..<n])) [0..<m])"
proof -
  have "map tolist1 A = map (\<lambda>i. JArray (map (\<lambda>j. JFloat (A ! i ! j)) [0..<n])) [0..<m]"
  proof (rule nth_equalityI)
    show "length (map tolist1 A) = length (map (\<lambda>i. JArray (map (\<lambda>j. JFloat (A ! i ! j)) [0..<n])) [0..<m])"
      using assms by (simp add: has_shape_def)
    fix i assume "i < length (map tolist1 A)"
    then have i: "i < length A" "i < m" using assms by (simp_all add: has_shape_def)
    then have "length (A ! i) = n" using assms by (simp add: has_shape_def)
    then show "map tolist1 A ! i = map (\<lambda>i. JArray (map (\<lambda>j. JFloat (A ! i ! j)) [0..<n])) [0..<m] ! i"
      using i by (simp add: tolist1_entries)
  qed
  then show ?thesis by (simp add: tolist2_def)
qed

text \<open>
  Claim C8. For every state of the classifier that \<^verbatim>\<open>train\<close> builds, that is, with the
  sizes 4, 16 and 3 and parameters of the shapes that \<^verbatim>\<open>__init__\<close> gives them and every
  training step keeps, whatever its entries are, the export writes the serialization
  of the following document and nothing else. Its top-level fields are exactly
  \<open>model\<close> (the string \<open>price-predictor\<close>), \<open>version\<close> (\<open>1.0.0\<close>), \<open>architecture\<close>
  (the sizes 4, 16 and 3 and the activation names \<open>relu\<close> and \<open>softmax\<close>), \<open>weights\<close> and
  \<open>labels\<close>. Under \<open>weights\<close>, \<open>W1\<close> is an array of 4 arrays of 16 numbers, \<open>b1\<close> an
  array of 16 numbers, \<open>W2\<close> an array of 16 arrays of 3 numbers and \<open>b2\<close> an array of
  3 numbers, and each number is the entry of the parameter at the same position.
  \<open>labels\<close> is the list UP, DOWN, SIDEWAYS, whose positions 0, 1, 2 are the class
  indices of the generator's labels: the index of the entry 1 is 0 for a rising, 1 for
  a falling and 2 for a flat total change.
\<close>

theorem exported_artifact_of_trained_model:
  fixes self :: "'a price_predictor"
  assumes "input_size self = 4" and "hidden_size self = 16" and "output_size self = 3"
    and "has_shape (W1 self) 4 16" and "length (b1 self) = 16"
    and "has_shape (W2 self) 16 3" and "length (b2 self) = 3"
  shows "export_weights dumps self path files = files(path \<mapsto> dumps (weights_document self))
    \<and> weights_document self = JObject
         [(''model'', JString ''price-predictor''),
          (''version'', JString ''1.0.0''),
          (''architecture'', JObject
             [(''input_size'', JInt 4), (''hidden_size'', JInt 16), (''output_size'', JInt 3),
              (''activation'', JString ''relu''), (''output_activation'', JString ''softmax'')]),
          (''weights'', JObject
             [(''W1'', JArray (map (\<lambda>i. JArray (map (\<lambda>j. JFloat (W1 self ! i ! j)) [0..<16])) [0..<4])),
              (''b1'', JArray (map (\<lambda>j. JFloat (b1 self ! j)) [0..<16])),
              (''W2'', JArray (map (\<lambda>i. JArray (map (\<lambda>j. JFloat (W2 self ! i ! j)) [0..<3])) [0..<16])),
              (''b2'', JArray (map (\<lambda>j. JFloat (b2 self ! j)) [0..<3]))]),
          (''labels'', JArray [JString ''UP'', JString ''DOWN'', JString ''SIDEWAYS''])]
    \<and> argmax (map real_of_int (label_of_change t))
         = Inr (if t > 1.5 then 0 else if t < - 1.5 then 1 else 2)
    \<and> label_names ! 0 = ''UP'' \<and> label_names ! 1 = ''DOWN'' \<and> label_names ! 2 = ''SIDEWAYS''"
proof -
  have "tolist2 (W1 self) = JArray (map (\<lambda>i. JArray (map (\<lambda>j. JFloat (W1 self ! i ! j)) [0..<16])) [0..<4])"
    using assms(4) by (rule tolist2_entries)
  moreover have "tolist2 (W2 self) = JArray (map (\<lambda>i. JArray (map (\<lambda>j. JFloat (W2 self ! i ! j)) [0..<3])) [0..<16])"
    using assms(6) by (rule tolist2_entries)
  moreover have "tolist1 (b1 self) = JArray (map (\<lambda>j. JFloat (b1 self ! j)) [0..<16])"
    using assms(5) by (rule tolist1_entries)
  moreover have "tolist1 (b2 self) = JArray (map (\<lambda>j. JFloat (b2 self ! j)) [0..<3])"
    using assms(7) by (rule tolist1_entries)
  ultimately have "weights_document self = JObject
         [(''model'', JString ''price-predictor''),
          (''version'', JString ''1.0.0''),
          (''architecture'', JObject
             [(''input_size'', JInt 4), (''hidden_size'', JInt 16), (''output_size'', JInt 3),
              (''activation'', JString ''relu''), (''output_activation'', JString ''softmax'')]),
          (''weights'', JObject
             [(''W1'', JArray (map (\<lambda>i. JArray (map (\<lambda>j. JFloat (W1 self ! i ! j)) [0..<16])) [0..<4])),
              (''b1'', JArray (map (\<lambda>j. JFloat (b1 self ! j)) [0..<16])),
              (''W2'', JArray (map (\<lambda>i. JArray (map (\<lambda>j. JFloat (W2 self ! i ! j)) [0..<3])) [0..<16])),
              (''b2'', JArray (map (\<lambda>j. JFloat (b2 self ! j)) [0..<3]))]),
          (''labels'', JArray [JString ''UP'', JString ''DOWN'', JString ''SIDEWAYS''])]"
    using assms(1-3) by (simp add: weights_document_def label_names_def)
  moreover have "export_weights dumps self path files = files(path \<mapsto> dumps (weights_document self))"
    by (simp add: export_weights_def)
  moreover have "label_names ! 0 = ''UP'' \<and> label_names ! 1 = ''DOWN'' \<and> label_names ! 2 = ''SIDEWAYS''"
    by (simp add: label_names_def)
  ultimately show ?thesis
    using label_index by blast
qed

theorem exported_artifact_of_trained_model_witness:
  "export_weights (\<lambda>d. ''doc'') nan_model ''weights.json'' Map.empty ''weights.json'' = Some ''doc''
   \<and> weights_document nan_model = JObject
         [(''model'', JString ''price-predictor''),
          (''version'', JString ''1.0.0''),
          (''architecture'', JObject
             [(''input_size'', JInt 4), (''hidden_size'', JInt 16), (''output_size'', JInt 3),
              (''activation'', JString ''relu''), (''output_activation'', JString ''softmax'')]),
          (''weights'', JObject
             [(''W1'', JArray (replicate 4 (JArray (replicate 16 (JFloat NaN))))),
              (''b1'', JArray (replicate 16 (JFloat NaN))),
              (''W2'', JArray (replicate 16 (JArray (replicate 3 (JFloat NaN))))),
              (''b2'', JArray (replicate 3 (JFloat NaN)))]),
          (''labels'', JArray [JString ''UP'', JString ''DOWN'', JString ''SIDEWAYS''])]"
proof -
  have sh: "has_shape (W1 nan_model) 4 16" "has_shape (W2 nan_model) 16 3"
    by (simp_all add: nan_model_def has_shape_def)
  have r: "map (\<lambda>i. c) [0..<n] = replicate n c" for c :: "'b" and n
    by (simp add: map_replicate_const)
  have e: "W1 nan_model ! i ! j = NaN" "W2 nan_model ! k ! l = NaN" "b1 nan_model ! j = NaN"
    "b2 nan_model ! l = NaN" if "i < 4" "j < 16" "k < 16" "l < 3" for i j k l
    using that by (simp_all add: nan_model_def)
  have w1: "map (\<lambda>i. JArray (map (\<lambda>j. JFloat (W1 nan_model ! i ! j)) [0..<16])) [0..<4]
      = replicate 4 (JArray (replicate 16 (JFloat NaN)))"
    by (auto simp: nan_model_def intro!: nth_equalityI)
  have w2: "map (\<lambda>i. JArray (map (\<lambda>j. JFloat (W2 nan_model ! i ! j)) [0..<3])) [0..<16]
      = replicate 16 (JArray (replicate 3 (JFloat NaN)))"
    by (auto simp: nan_model_def intro!: nth_equalityI)
  have v1: "map (\<lambda>j. JFloat (b1 nan_model ! j)) [0..<16] = replicate 16 (JFloat NaN)"
    by (auto simp: nan_model_def intro!: nth_equalityI)
  have v2: "map (\<lambda>j. JFloat (b2 nan_model ! j)) [0..<3] = replicate 3 (JFloat NaN)"
    by (auto simp: nan_model_def intro!: nth_equalityI)
  show ?thesis
    using exported_artifact_of_trained_model [of nan_model "\<lambda>d. ''doc''" "''weights.json''" Map.empty 0] sh
    unfolding w1 w2 v1 v2
    by (simp add: nan_model_def)
qed

end
